theory Spec2Isabelle
  imports Complex_Main "HOL-Library.Multiset"
begin

section \<open>Python and NumPy primitives used by the scripts\<close>

text \<open>
  Exceptions of the Python runtime that the modelled code can raise. \<open>SystemExit\<close>
  carries the process exit status (argparse leaves through it).
\<close>

datatype py_error = IndexError | ValueError | AttributeError | RuntimeError | SystemExit nat

text \<open>Sequencing of fallible steps: the first exception ends the computation.\<close>

definition bind_err :: "py_error + 'a \<Rightarrow> ('a \<Rightarrow> py_error + 'b) \<Rightarrow> py_error + 'b" where
  "bind_err m f = (case m of Inl e \<Rightarrow> Inl e | Inr v \<Rightarrow> f v)"

text \<open>\<open>np.where(ys == c)[0]\<close>: the ascending positions at which \<open>ys\<close> holds \<open>c\<close>.\<close>

definition np_where_eq :: "'a list \<Rightarrow> 'a \<Rightarrow> nat list" where
  "np_where_eq ys c = filter (\<lambda>i. ys ! i = c) [0..<length ys]"

text \<open>
  Integer-array indexing \<open>xs[idx]\<close> along the first axis, for non-negative indices:
  a fresh array of the selected rows, or \<open>IndexError\<close> when an index is out of bounds.
\<close>

definition np_take :: "'a list \<Rightarrow> nat list \<Rightarrow> py_error + 'a list" where
  "np_take xs idx =
     (if list_all (\<lambda>i. i < length xs) idx then Inr (map (\<lambda>i. xs ! i) idx) else Inl IndexError)"

section \<open>The initial, class-balanced training set\<close>

text \<open>
  One block of \<open>get_uniform_training_data\<close>:
  \<^verbatim>\<open>idx_c = np.array(np.where(y_train == c)).T; idx_c = idx_c[0:2, 0]\<close>,
  \<^verbatim>\<open>x_c = x_train[idx_c, :, :, :]; y_c = y_train[idx_c]\<close>.
\<close>

definition uniform_class_block ::
  "'x list \<Rightarrow> nat list \<Rightarrow> nat \<Rightarrow> py_error + ('x list \<times> nat list)" where
  "uniform_class_block x_train y_train c =
     (let idx_c = take 2 (np_where_eq y_train c) in
      bind_err (np_take x_train idx_c) (\<lambda>x_c.
      bind_err (np_take y_train idx_c) (\<lambda>y_c.
      Inr (x_c, y_c))))"

text \<open>The ten blocks in the order of the source, then the two concatenations.\<close>

definition get_uniform_training_data ::
  "'x list \<Rightarrow> nat list \<Rightarrow> py_error + ('x list \<times> nat list)" where
  "get_uniform_training_data x_train y_train =
     bind_err (uniform_class_block x_train y_train 0) (\<lambda>(x_0, y_0).
     bind_err (uniform_class_block x_train y_train 1) (\<lambda>(x_1, y_1).
     bind_err (uniform_class_block x_train y_train 2) (\<lambda>(x_2, y_2).
     bind_err (uniform_class_block x_train y_train 3) (\<lambda>(x_3, y_3).
     bind_err (uniform_class_block x_train y_train 4) (\<lambda>(x_4, y_4).
     bind_err (uniform_class_block x_train y_train 5) (\<lambda>(x_5, y_5).
     bind_err (uniform_class_block x_train y_train 6) (\<lambda>(x_6, y_6).
     bind_err (uniform_class_block x_train y_train 7) (\<lambda>(x_7, y_7).
     bind_err (uniform_class_block x_train y_train 8) (\<lambda>(x_8, y_8).
     bind_err (uniform_class_block x_train y_train 9) (\<lambda>(x_9, y_9).
     Inr (x_0 @ x_1 @ x_2 @ x_3 @ x_4 @ x_5 @ x_6 @ x_7 @ x_8 @ x_9,
          y_0 @ y_1 @ y_2 @ y_3 @ y_4 @ y_5 @ y_6 @ y_7 @ y_8 @ y_9)))))))))))"

text \<open>
  What "the first two occurrences of class \<open>c\<close>" means for a label array: two
  positions holding \<open>c\<close>, in order, with no other \<open>c\<close> before the second.
\<close>

definition first_two_occurrences :: "nat list \<Rightarrow> nat \<Rightarrow> nat \<Rightarrow> nat \<Rightarrow> bool" where
  "first_two_occurrences ys c i1 i2 \<longleftrightarrow>
     i1 < i2 \<and> i2 < length ys \<and> ys ! i1 = c \<and> ys ! i2 = c \<and>
     (\<forall>j\<in>set [0..<i2]. ys ! j = c \<longrightarrow> j = i1)"

section \<open>The command line of the active-learning script\<close>

text \<open>
  The part of \<open>argparse\<close> the script uses. A parser holds its actions in the order of
  registration; \<open>argparse.ArgumentParser()\<close> registers the help action \<open>-h/--help\<close> itself
  (\<open>add_help\<close> defaults to \<open>True\<close>), and \<open>add_argument\<close>, also when called on an argument
  group of the parser, registers one more action with the parser.
\<close>

datatype action_kind = StoreAction | HelpAction

record action =
  option_strings :: "string list"
  dest :: string
  kind :: action_kind
  required :: bool
  default_value :: "string option"
  help_text :: string

record ArgumentParser =
  actions :: "action list"

definition ArgumentParser_init :: ArgumentParser where
  "ArgumentParser_init =
     \<lparr>actions = [\<lparr>option_strings = [''-h'', ''--help''], dest = ''help'', kind = HelpAction,
                  required = False, default_value = None,
                  help_text = ''show this help message and exit''\<rparr>]\<rparr>"

definition add_argument :: "ArgumentParser \<Rightarrow> action \<Rightarrow> ArgumentParser" where
  "add_argument p a = p\<lparr>actions := actions p @ [a]\<rparr>"

text \<open>Lines 27 to 32 of the script (\<open>type=str\<close> leaves the value as the string given).\<close>

definition script_parser :: ArgumentParser where
  "script_parser =
     (let parser = ArgumentParser_init;
          named_args = parser
      in add_argument named_args
           \<lparr>option_strings = [''-g'', ''--gpu''], dest = ''gpu'', kind = StoreAction,
            required = False, default_value = Some ''0'', help_text = ''gpu to use''\<rparr>)"

text \<open>
  \<open>parse_args\<close> is modelled for argument vectors whose every token is either one of the
  registered option strings or a plain word, one that does not begin with \<open>-\<close>. For other
  vectors (abbreviated or attached forms such as \<open>--gp\<close>, \<open>--gpu=1\<close>, \<open>-g1\<close>, the separator
  \<open>--\<close>, unknown options) the model gives no answer: \<open>None\<close>.

  Within that fragment \<open>argparse\<close> reads the tokens from left to right. A plain word
  outside an option's argument is left over (the parser has no positional arguments). The
  help option prints the help and exits with status 0 at once. A storing option takes the
  next token as its value if that is a plain word, and otherwise ends the program with
  status 2. At the end a missing required option or a left-over word ends the program
  with status 2; otherwise the namespace holds the defaults overridden by the values given.
\<close>

definition plain_word :: "string \<Rightarrow> bool" where
  "plain_word t \<longleftrightarrow> (case t of [] \<Rightarrow> True | c # cs \<Rightarrow> c \<noteq> CHR ''-'')"

definition find_action :: "ArgumentParser \<Rightarrow> string \<Rightarrow> action option" where
  "find_action p t = find (\<lambda>a. t \<in> set (option_strings a)) (actions p)"

fun consume ::
  "ArgumentParser \<Rightarrow> string list \<Rightarrow> (string \<times> string) list \<Rightarrow> string list
   \<Rightarrow> py_error + ((string \<times> string) list \<times> string list)" where
  "consume p [] given extras = Inr (given, extras)"
| "consume p (t # ts) given extras =
     (if plain_word t then consume p ts given (extras @ [t])
      else case find_action p t of
        None \<Rightarrow> consume p ts given (extras @ [t])
      | Some a \<Rightarrow>
          (case kind a of
             HelpAction \<Rightarrow> Inl (SystemExit 0)
           | StoreAction \<Rightarrow>
               (case ts of
                  [] \<Rightarrow> Inl (SystemExit 2)
                | v # rest \<Rightarrow>
                    if plain_word v then consume p rest (given @ [(dest a, v)]) extras
                    else Inl (SystemExit 2))))"

definition namespace_of :: "ArgumentParser \<Rightarrow> (string \<times> string) list \<Rightarrow> (string \<rightharpoonup> string)" where
  "namespace_of p given =
     map_of (rev given @
             concat (map (\<lambda>a. case default_value a of None \<Rightarrow> [] | Some d \<Rightarrow> [(dest a, d)])
                       (actions p)))"

definition parse_args ::
  "ArgumentParser \<Rightarrow> string list \<Rightarrow> (py_error + (string \<rightharpoonup> string)) option" where
  "parse_args p argv =
     (if \<not> list_all (\<lambda>t. plain_word t \<or> find_action p t \<noteq> None) argv then None
      else Some (bind_err (consume p argv [] []) (\<lambda>r.
             let given = fst r; extras = snd r in
             if \<not> list_all (\<lambda>a. required a \<longrightarrow> dest a \<in> set (map fst given)) (actions p)
               then Inl (SystemExit 2)
             else if extras \<noteq> [] then Inl (SystemExit 2)
             else Inr (namespace_of p given))))"

text \<open>\<open>args.gpu\<close>.\<close>

definition namespace_attr :: "(string \<rightharpoonup> string) \<Rightarrow> string \<Rightarrow> py_error + string" where
  "namespace_attr ns name = (case ns name of None \<Rightarrow> Inl AttributeError | Some v \<Rightarrow> Inr v)"

section \<open>The active-learning script: data preparation\<close>

text \<open>
  Images are arrays of pixel intensities; \<open>reshape\<close> only changes their shape, so an image
  is kept as the flat list of its pixels. Labels are the digits 0 to 9 and the sentinel 10.
  Floating-point numbers are idealised as reals.
\<close>

type_synonym image = "real list"
type_synonym environ = "string \<rightharpoonup> string"

definition batch_size :: nat where "batch_size = 128"
definition num_classes :: nat where "num_classes = 10"
definition epochs :: nat where "epochs = 4"
definition initial_train_point :: nat where "initial_train_point = 10000"
definition acquisition_iterations :: nat where "acquisition_iterations = 1000"
definition dropout_iterations :: nat where "dropout_iterations = 3"
definition Queries :: nat where "Queries = 10"
definition pool_subset :: nat where "pool_subset = 2000"

text \<open>\<open>get_pool_data\<close>: the slices \<open>[initial_train_point:]\<close> and \<open>[0:initial_train_point]\<close>.\<close>

definition get_pool_data ::
  "'x list \<Rightarrow> 'l list \<Rightarrow> nat \<Rightarrow> 'x list \<times> 'l list \<times> 'x list \<times> 'l list" where
  "get_pool_data x_train y_train itp =
     (let x_pool = drop itp x_train;
          y_pool = drop itp y_train;
          x_train = take itp x_train;
          y_train = take itp y_train
      in (x_train, y_train, x_pool, y_pool))"

text \<open>
  \<open>np.int(np.round(n * 0.5))\<close>. The product is exact in binary floating point, and NumPy
  rounds to the nearest integer with ties going to the even one.
\<close>

definition np_round_half :: "nat \<Rightarrow> nat" where
  "np_round_half n =
     (let k = n div 2 in if even n then k else if even k then k else k + 1)"

text \<open>
  \<open>ys[idx] = v\<close> for an index array \<open>idx\<close> and a scalar \<open>v\<close>: every listed position is
  overwritten; an index out of bounds raises.
\<close>

definition np_put :: "'a list \<Rightarrow> nat list \<Rightarrow> 'a \<Rightarrow> py_error + 'a list" where
  "np_put ys idx v =
     (if list_all (\<lambda>i. i < length ys) idx then Inr (fold (\<lambda>i a. a[i := v]) idx ys)
      else Inl IndexError)"

text \<open>
  \<open>remove_pool_labels_for_oracle\<close>. \<open>np.random.shuffle\<close> permutes \<open>z\<close> in place; the
  permutation it draws is the parameter \<open>shuffle\<close>. The function overwrites the caller's
  \<open>y_pool\<close> and returns it.
\<close>

definition remove_pool_labels_for_oracle ::
  "(nat list \<Rightarrow> nat list) \<Rightarrow> 'x list \<Rightarrow> nat list \<Rightarrow> py_error + nat list" where
  "remove_pool_labels_for_oracle shuffle x_pool y_pool =
     (let z = [0..<np_round_half (length x_pool)];
          z = shuffle z
      in np_put y_pool z 10)"

text \<open>
  \<open>get_pool_index_unknown_to_oracle\<close>: \<open>np.where(Pooled_Y == 10)\<close>, of which
  \<open>np.asarray(list(...))[0,:]\<close> is the single index array.
\<close>

definition get_pool_index_unknown_to_oracle :: "nat list \<Rightarrow> nat list" where
  "get_pool_index_unknown_to_oracle Pooled_Y = np_where_eq Pooled_Y 10"

text \<open>Boolean-mask indexing \<open>xs[mask]\<close>; the mask must be as long as the array.\<close>

definition np_mask :: "'a list \<Rightarrow> bool list \<Rightarrow> py_error + 'a list" where
  "np_mask xs msk =
     (if length msk = length xs then Inr (map fst (filter snd (zip xs msk)))
      else Inl IndexError)"

subsection \<open>The oracle\<close>

text \<open>
  Modelled from the spec: the class \<open>KNOracle\<close> of the module \<open>oracle\<close>, which the script
  imports and whose source is not part of the examined files. The spec calls the oracle
  "a k-nearest-neighbor label lookup"; the script constructs it from a labelled reference
  set, \<open>n_neighbors\<close> and \<open>n_jobs\<close>. The object keeps its constructor arguments.
\<close>

record 'x KNOracle =
  ref_x :: "'x list"
  ref_y :: "nat list"
  n_neighbors :: nat
  n_jobs :: nat

text \<open>
  Modelled from the spec: \<open>KNOracle.assign_nearest_available_label\<close>, the lookup itself.
  Each query point receives the label that the k-nearest-neighbour rule \<open>knn\<close> gives it
  among the oracle's reference points, with \<open>k = n_neighbors\<close>. The rule (its metric and
  its vote) belongs to the nearest-neighbour library and is a parameter.
\<close>

definition assign_nearest_available_label ::
  "('x list \<Rightarrow> nat list \<Rightarrow> nat \<Rightarrow> 'q \<Rightarrow> nat) \<Rightarrow> 'x KNOracle \<Rightarrow> 'q list \<Rightarrow> nat list" where
  "assign_nearest_available_label knn orc X =
     map (knn (ref_x orc) (ref_y orc) (n_neighbors orc)) X"

text \<open>
  Lines 228 to 230 of the script: the pool points whose label is not the sentinel, and
  their labels, become the oracle's reference set.
\<close>

definition make_oracle :: "'x list \<Rightarrow> nat list \<Rightarrow> py_error + 'x KNOracle" where
  "make_oracle x_pool y_pool =
     bind_err (np_mask x_pool (map (\<lambda>l. l \<noteq> 10) y_pool)) (\<lambda>x_pool_with_labels.
     bind_err (np_mask y_pool (map (\<lambda>l. l \<noteq> 10) y_pool)) (\<lambda>y_pool_with_labels.
     Inr \<lparr>ref_x = x_pool_with_labels, ref_y = y_pool_with_labels,
          n_neighbors = 3, n_jobs = 2\<rparr>))"

text \<open>
  \<open>keras.utils.to_categorical(y, num_classes)\<close>: one row per label with a one at the
  label's position; a label outside \<open>0..num_classes-1\<close> raises \<open>IndexError\<close>.
\<close>

definition one_hot :: "nat \<Rightarrow> nat \<Rightarrow> real list" where
  "one_hot n l = map (\<lambda>c. if c = l then 1 else 0) [0..<n]"

definition to_categorical :: "nat list \<Rightarrow> nat \<Rightarrow> py_error + real list list" where
  "to_categorical y n =
     (if list_all (\<lambda>l. l < n) y then Inr (map (one_hot n) y) else Inl IndexError)"

text \<open>\<open>x.astype('float32')\<close> followed by \<open>x /= 255\<close>.\<close>

definition normalize :: "image list \<Rightarrow> image list" where
  "normalize x = map (map (\<lambda>p. p / 255)) x"

section \<open>The active-learning script: BALD acquisition\<close>

text \<open>
  Element-wise NumPy arithmetic on vectors and matrices of equal shape (rows as lists).
  The script only ever combines arrays of the same shape.
\<close>

definition np_add1 :: "real list \<Rightarrow> real list \<Rightarrow> real list" where
  "np_add1 a b = map2 (+) a b"

definition np_subtract1 :: "real list \<Rightarrow> real list \<Rightarrow> real list" where
  "np_subtract1 a b = map2 (-) a b"

definition np_add2 :: "real list list \<Rightarrow> real list list \<Rightarrow> real list list" where
  "np_add2 A B = map2 (map2 (+)) A B"

definition np_multiply2 :: "real list list \<Rightarrow> real list list \<Rightarrow> real list list" where
  "np_multiply2 A B = map2 (map2 (*)) A B"

definition np_negative2 :: "real list list \<Rightarrow> real list list" where
  "np_negative2 A = map (map uminus) A"

definition np_log2 :: "real list list \<Rightarrow> real list list" where
  "np_log2 A = map (map (log 2)) A"

definition np_sum_axis1 :: "real list list \<Rightarrow> real list" where
  "np_sum_axis1 A = map sum_list A"

text \<open>
  The body of the loop over \<open>d\<close> (lines 311 to 319), given the prediction
  \<open>dropout_score\<close> of that pass: the running sum of the predictions and the running sum of
  the per-pass entropies.
\<close>

definition dropout_pass ::
  "real list list \<Rightarrow> real list list \<times> real list \<Rightarrow> real list list \<times> real list" where
  "dropout_pass dropout_score acc =
     (let score_All = fst acc;
          All_Entropy_Dropout = snd acc;
          score_All = np_add2 score_All dropout_score;
          dropout_score_log = np_log2 dropout_score;
          Entropy_Compute = np_negative2 (np_multiply2 dropout_score dropout_score_log);
          Entropy_Per_Dropout = np_sum_axis1 Entropy_Compute;
          All_Entropy_Dropout = np_add1 All_Entropy_Dropout Entropy_Per_Dropout
      in (score_All, All_Entropy_Dropout))"

text \<open>
  Lines 302 to 329: the acquisition scores \<open>U_X\<close> of the \<open>n\<close> sampled points, where
  \<open>dropout_scores d\<close> is what \<open>model.predict\<close> returns in pass \<open>d\<close>.
\<close>

definition bald_U_X :: "(nat \<Rightarrow> real list list) \<Rightarrow> nat \<Rightarrow> real list" where
  "bald_U_X dropout_scores n =
     (let score_All = replicate n (replicate num_classes 0);
          All_Entropy_Dropout = replicate n 0;
          acc = fold (\<lambda>d. dropout_pass (dropout_scores d)) [0..<dropout_iterations]
                  (score_All, All_Entropy_Dropout);
          score_All = fst acc;
          All_Entropy_Dropout = snd acc;
          Avg_Pi = map (map (\<lambda>v. v / real dropout_iterations)) score_All;
          Log_Avg_Pi = np_log2 Avg_Pi;
          Entropy_Avg_Pi = np_negative2 (np_multiply2 Avg_Pi Log_Avg_Pi);
          Entropy_Average_Pi = np_sum_axis1 Entropy_Avg_Pi;
          G_X = Entropy_Average_Pi;
          Average_Entropy = map (\<lambda>v. v / real dropout_iterations) All_Entropy_Dropout;
          U_X = np_subtract1 Entropy_Average_Pi Average_Entropy
      in U_X)"

text \<open>
  The BALD score in the words of the specification: the base-2 entropy of the average of
  the predictive distributions of the passes, minus the average of the base-2 entropies of
  those distributions. The entropy uses the convention \<open>0 log 0 = 0\<close>.
\<close>

definition entropy2 :: "real list \<Rightarrow> real" where
  "entropy2 p = - (\<Sum>v\<leftarrow>p. if v = 0 then 0 else v * log 2 v)"



text \<open>
  Lines 331 and 332: \<open>a_1d.argsort()[-Queries:][::-1]\<close>, given the index array
  \<open>sorted_idx\<close> that \<open>argsort\<close> returned. A negative slice start is clipped at the
  beginning of the array.
\<close>

definition top_queries :: "nat list \<Rightarrow> nat \<Rightarrow> nat list" where
  "top_queries sorted_idx q = rev (drop (length sorted_idx - q) sorted_idx)"

text \<open>
  What NumPy promises of \<open>a.argsort()\<close>: a permutation of the positions of \<open>a\<close> that
  lists its values in ascending order. The order among equal values is not fixed by the
  default sorting kind.
\<close>

definition is_argsort :: "real list \<Rightarrow> nat list \<Rightarrow> bool" where
  "is_argsort a idx \<longleftrightarrow>
     mset idx = mset [0..<length a] \<and> sorted (map (\<lambda>i. a ! i) idx)"

text \<open>
  \<open>ys[idx] = vals\<close> for an index array and a value array: the values are stored
  position by position; a single value is broadcast; other lengths do not fit.
\<close>

definition np_put_values :: "'a list \<Rightarrow> nat list \<Rightarrow> 'a list \<Rightarrow> py_error + 'a list" where
  "np_put_values ys idx vals =
     (if \<not> list_all (\<lambda>i. i < length ys) idx then Inl IndexError
      else if length vals = length idx then
        Inr (fold (\<lambda>iv a. a[fst iv := snd iv]) (zip idx vals) ys)
      else if length vals = 1 then
        Inr (fold (\<lambda>i a. a[i := hd vals]) idx ys)
      else Inl ValueError)"

text \<open>\<open>np.delete(xs, idx, axis=0)\<close>: a copy without the rows listed in \<open>idx\<close>.\<close>

definition np_delete :: "'a list \<Rightarrow> nat list \<Rightarrow> py_error + 'a list" where
  "np_delete xs idx =
     (if list_all (\<lambda>i. i < length xs) idx
      then Inr (map (\<lambda>i. xs ! i) (filter (\<lambda>i. i \<notin> set idx) [0..<length xs]))
      else Inl IndexError)"

section \<open>The active-learning script: models, state and the loop\<close>

text \<open>
  The layers and the compile arguments the script hands to Keras. The network itself, its
  initialisation, training and stochastic prediction belong to the framework.
\<close>

datatype layer =
    Conv2D nat "nat \<times> nat" string
  | MaxPooling2D "nat \<times> nat"
  | Lambda_dropout real
  | Flatten
  | Dense nat string

record compile_args =
  loss :: string
  optimizer :: string
  metrics :: "string list"

text \<open>Lines 259 to 272: the network built before the loop.\<close>

definition initial_layers :: "layer list" where
  "initial_layers =
     [Conv2D 32 (3, 3) ''relu'',
      Conv2D 64 (3, 3) ''relu'',
      MaxPooling2D (2, 2),
      Lambda_dropout 0.25,
      Flatten,
      Dense 128 ''relu'',
      Lambda_dropout 0.5,
      Dense num_classes ''softmax'']"

definition initial_compile :: compile_args where
  "initial_compile =
     \<lparr>loss = ''categorical_crossentropy'', optimizer = ''Adam'', metrics = [''accuracy'']\<rparr>"

text \<open>Lines 367 to 380: the network built inside the loop.\<close>

definition iteration_layers :: "layer list" where
  "iteration_layers =
     [Conv2D 32 (3, 3) ''relu'',
      Conv2D 64 (3, 3) ''relu'',
      MaxPooling2D (2, 2),
      Lambda_dropout 0.25,
      Flatten,
      Dense 128 ''relu'',
      Lambda_dropout 0.5,
      Dense num_classes ''softmax'']"

definition iteration_compile :: compile_args where
  "iteration_compile =
     \<lparr>loss = ''categorical_crossentropy'', optimizer = ''Adam'', metrics = [''accuracy'']\<rparr>"

text \<open>
  The framework operations, as functions of everything they depend on. \<open>'m\<close> is a model
  with its weights, \<open>'r\<close> the random numbers an operation consumes. Every operation sees
  the process environment, from which the framework reads the device selection.
  \<^item> \<open>Sequential_compile\<close>: \<open>Sequential()\<close>, the \<open>add\<close> calls and \<open>compile\<close>: a new model whose
    weights are drawn from the random numbers given.
  \<^item> \<open>fit\<close>: the model after training on the data for the given batch size and epochs.
  \<open>predict\<close>: one stochastic forward pass (the dropout layers are active in prediction).
  \<^item> \<open>evaluate\<close>: loss and accuracy. \<open>argsort\<close>: NumPy's. \<open>knn\<close>: the nearest-neighbour rule
    used by the oracle.
\<close>

record ('m, 'r) framework =
  Sequential_compile :: "environ \<Rightarrow> 'r \<Rightarrow> layer list \<Rightarrow> compile_args \<Rightarrow> 'm"
  fit :: "environ \<Rightarrow> 'm \<Rightarrow> 'r \<Rightarrow> image list \<Rightarrow> real list list \<Rightarrow> nat \<Rightarrow> nat \<Rightarrow> 'm"
  predict :: "environ \<Rightarrow> 'm \<Rightarrow> 'r \<Rightarrow> image list \<Rightarrow> nat \<Rightarrow> real list list"
  evaluate :: "environ \<Rightarrow> 'm \<Rightarrow> image list \<Rightarrow> real list list \<Rightarrow> real list"
  argsort :: "real list \<Rightarrow> nat list"
  knn :: "image list \<Rightarrow> nat list \<Rightarrow> nat \<Rightarrow> image \<Rightarrow> nat"

text \<open>
  The random choices of one pass through the loop body: \<open>sample n k\<close> is the result of
  \<open>random.sample(range(0, n), k)\<close>, \<open>dropout_noise d\<close> the dropout masks of prediction
  pass \<open>d\<close>, \<open>init_noise\<close> the initial weights of the new model and \<open>fit_noise\<close> the
  randomness of its training.
\<close>

record 'r draws =
  sample :: "nat \<Rightarrow> nat \<Rightarrow> nat list"
  dropout_noise :: "nat \<Rightarrow> 'r"
  init_noise :: 'r
  fit_noise :: 'r

text \<open>
  The module-level variables of the script. \<open>Pooled_Y\<close> holds the labels of the queried
  points after the oracle has filled in the unknown ones; the script then rebinds the name
  to their one-hot encoding, kept here as \<open>Pooled_Y_categorical\<close>. The global
  \<open>oracle\<close> is the field \<open>the_oracle\<close>.
\<close>

record 'm script_state =
  os_environ :: environ
  the_oracle :: "image KNOracle"
  x_train :: "image list"
  y_train :: "real list list"
  x_pool :: "image list"
  y_pool :: "nat list"
  x_test :: "image list"
  y_test :: "real list list"
  model :: 'm
  score :: "real list"
  pool_subset_dropout :: "nat list"
  X_Pool_Dropout :: "image list"
  y_Pool_Dropout :: "nat list"
  U_X :: "real list"
  x_pool_index :: "nat list"
  Pooled_X :: "image list"
  Pooled_Y :: "nat list"
  Pooled_Y_categorical :: "real list list"
  index_unknown_to_oracle :: "nat list"
  delete_Pool_X :: "image list"
  delete_Pool_Y :: "nat list"
  delete_Pool_X_Dropout :: "image list"
  delete_Pool_Y_Dropout :: "nat list"

text \<open>
  One pass through the body of the acquisition loop (lines 294 to 388).
  \<open>random.sample\<close> raises \<open>ValueError\<close> when asked for more elements than the population has.
\<close>

definition acquisition_iteration ::
  "('m, 'r) framework \<Rightarrow> 'r draws \<Rightarrow> 'm script_state \<Rightarrow> py_error + 'm script_state" where
  "acquisition_iteration K R s =
     (if length (x_pool s) < pool_subset then Inl ValueError
      else
        let psd = sample R (length (x_pool s)) pool_subset in
        bind_err (np_take (x_pool s) psd) (\<lambda>xpd.
        bind_err (np_take (y_pool s) psd) (\<lambda>ypd.
        let ux = bald_U_X (\<lambda>d. predict K (os_environ s) (model s) (dropout_noise R d) xpd batch_size)
                   (length xpd);
            a_1d = ux;
            xpi = top_queries (argsort K a_1d) Queries
        in
        bind_err (np_take xpd xpi) (\<lambda>px.
        bind_err (np_take ypd xpi) (\<lambda>py.
        let iu = get_pool_index_unknown_to_oracle py in
        bind_err (np_take px iu) (\<lambda>px_unknown.
        bind_err (np_put_values py iu
                    (assign_nearest_available_label (knn K) (the_oracle s) px_unknown)) (\<lambda>py.
        bind_err (to_categorical py num_classes) (\<lambda>py_cat.
        bind_err (np_delete (x_pool s) psd) (\<lambda>dpx.
        bind_err (np_delete (y_pool s) psd) (\<lambda>dpy.
        bind_err (np_delete xpd xpi) (\<lambda>dpxd.
        bind_err (np_delete ypd xpi) (\<lambda>dpyd.
        let xp = x_pool s @ xpd;
            yp = y_pool s @ ypd;
            xt = x_train s @ px;
            yt = y_train s @ py_cat;
            m = Sequential_compile K (os_environ s) (init_noise R) iteration_layers
                  iteration_compile;
            m = fit K (os_environ s) m (fit_noise R) xt yt batch_size epochs;
            sc = evaluate K (os_environ s) m (x_test s) (y_test s)
        in Inr (s\<lparr>pool_subset_dropout := psd, X_Pool_Dropout := xpd, y_Pool_Dropout := ypd,
                  U_X := ux, x_pool_index := xpi, Pooled_X := px, Pooled_Y := py,
                  index_unknown_to_oracle := iu, Pooled_Y_categorical := py_cat,
                  delete_Pool_X := dpx, delete_Pool_Y := dpy,
                  delete_Pool_X_Dropout := dpxd, delete_Pool_Y_Dropout := dpyd,
                  x_pool := xp, y_pool := yp, x_train := xt, y_train := yt,
                  model := m, score := sc\<rparr>)))))))))))))"

text \<open>\<open>for i in range(...)\<close>: the body once per index, with that pass's random choices.\<close>

fun acquisition_loop ::
  "('m, 'r) framework \<Rightarrow> (nat \<Rightarrow> 'r draws) \<Rightarrow> nat list \<Rightarrow> 'm script_state
   \<Rightarrow> py_error + 'm script_state" where
  "acquisition_loop K R [] s = Inr s"
| "acquisition_loop K R (i # rest) s =
     bind_err (acquisition_iteration K (R i) s) (acquisition_loop K R rest)"

section \<open>The active-learning script as a whole\<close>

text \<open>
  The arrays the script holds after line 203: the MNIST training set without its
  validation part, the validation part, and the test set.
\<close>

record mnist_arrays =
  in_x_train :: "image list"
  in_y_train :: "nat list"
  in_x_valid :: "image list"
  in_y_valid :: "nat list"
  in_x_test :: "image list"
  in_y_test :: "nat list"

text \<open>
  Lines 205 to 388 under a given process environment: the split into initial training
  set and pool, the withholding of labels, the oracle (built from the pool before it is
  normalised), the normalisation and one-hot encoding, the first model, and the
  acquisition loop. \<open>R0\<close> holds the random choices of the first model, \<open>R i\<close> those of
  pass \<open>i\<close> of the loop.
\<close>

definition run_experiment ::
  "('m, 'r) framework \<Rightarrow> (nat list \<Rightarrow> nat list) \<Rightarrow> 'r draws \<Rightarrow> (nat \<Rightarrow> 'r draws) \<Rightarrow> mnist_arrays
   \<Rightarrow> environ \<Rightarrow> py_error + 'm script_state" where
  "run_experiment K shuffle R0 R D env =
     (let split = get_pool_data (in_x_train D) (in_y_train D) initial_train_point;
          xt = fst split; yt = fst (snd split);
          xp = fst (snd (snd split)); yp = snd (snd (snd split))
      in
      bind_err (get_uniform_training_data xt yt) (\<lambda>uniform.
      let xt = fst uniform; yt = snd uniform in
      bind_err (remove_pool_labels_for_oracle shuffle xp yp) (\<lambda>yp.
      bind_err (make_oracle xp yp) (\<lambda>orc.
      let xt = normalize xt;
          xv = normalize (in_x_valid D);
          xp = normalize xp;
          xte = normalize (in_x_test D)
      in
      bind_err (to_categorical yt num_classes) (\<lambda>yt.
      bind_err (to_categorical (in_y_valid D) num_classes) (\<lambda>yv.
      bind_err (to_categorical (in_y_test D) num_classes) (\<lambda>yte.
      let m = Sequential_compile K env (init_noise R0) initial_layers initial_compile;
          m = fit K env m (fit_noise R0) xt yt batch_size epochs;
          sc = evaluate K env m xte yte
      in acquisition_loop K R [0..<acquisition_iterations]
           \<lparr>os_environ = env, the_oracle = orc,
            x_train = xt, y_train = yt, x_pool = xp, y_pool = yp,
            x_test = xte, y_test = yte, model = m, score = sc,
            pool_subset_dropout = [], X_Pool_Dropout = [], y_Pool_Dropout = [],
            U_X = [], x_pool_index = [], Pooled_X = [], Pooled_Y = [],
            Pooled_Y_categorical = [], index_unknown_to_oracle = [],
            delete_Pool_X = [], delete_Pool_Y = [],
            delete_Pool_X_Dropout = [], delete_Pool_Y_Dropout = []\<rparr>)))))))"

text \<open>
  The script from its first statement: the command line is parsed, the two environment
  variables are set, and everything else follows (lines 34 to 36, then the rest). The
  answer is \<open>None\<close> where the model of \<open>parse_args\<close> gives none.
\<close>

definition script ::
  "('m, 'r) framework \<Rightarrow> (nat list \<Rightarrow> nat list) \<Rightarrow> 'r draws \<Rightarrow> (nat \<Rightarrow> 'r draws) \<Rightarrow> mnist_arrays
   \<Rightarrow> string list \<Rightarrow> environ \<Rightarrow> (py_error + 'm script_state) option" where
  "script K shuffle R0 R D argv env =
     (case parse_args script_parser argv of
        None \<Rightarrow> None
      | Some parsed \<Rightarrow>
          Some (bind_err parsed (\<lambda>args.
                bind_err (namespace_attr args ''gpu'') (\<lambda>gpu.
                let env = env(''CUDA_DEVICE_ORDER'' \<mapsto> ''PCI_BUS_ID'');
                    env = env(''CUDA_VISIBLE_DEVICES'' \<mapsto> gpu)
                in run_experiment K shuffle R0 R D env))))"

section \<open>The deep generative models (\<open>ssl_vae/dgm.py\<close>)\<close>

text \<open>
  A tensor is a batch of rows. A PyTorch parameter is a tensor with its \<open>requires_grad\<close>
  flag; a module (\<open>nn.Module\<close>) has a class name, its \<open>training\<close> flag, its integer
  attributes, its own parameters and its named submodules. Objects are values here, so
  two modules never share a parameter.
\<close>

type_synonym tensor = "real list list"

datatype param = Param (param_data: tensor) (requires_grad: bool)

datatype module =
  Module (cls: string) (training: bool) (int_attrs: "(string \<times> nat) list")
    (own_parameters: "(string \<times> param) list") (submodules: "(string \<times> module) list")

text \<open>Attribute access; a missing attribute raises \<open>AttributeError\<close>.\<close>

definition getattr_module :: "module \<Rightarrow> string \<Rightarrow> py_error + module" where
  "getattr_module m name =
     (case map_of (submodules m) name of None \<Rightarrow> Inl AttributeError | Some c \<Rightarrow> Inr c)"

definition getattr_int :: "module \<Rightarrow> string \<Rightarrow> py_error + nat" where
  "getattr_int m name =
     (case map_of (int_attrs m) name of None \<Rightarrow> Inl AttributeError | Some v \<Rightarrow> Inr v)"

text \<open>
  Assigning a module to an attribute: an existing entry of that name is replaced where it
  stands, a new one is added at the end.
\<close>

fun assoc_update :: "string \<Rightarrow> 'v \<Rightarrow> (string \<times> 'v) list \<Rightarrow> (string \<times> 'v) list" where
  "assoc_update k v [] = [(k, v)]"
| "assoc_update k v (p # ps) = (if fst p = k then (k, v) # ps else p # assoc_update k v ps)"

definition setattr_module :: "module \<Rightarrow> string \<Rightarrow> module \<Rightarrow> module" where
  "setattr_module m name c =
     Module (cls m) (training m) (int_attrs m) (own_parameters m)
       (assoc_update name c (submodules m))"

text \<open>\<open>nn.Module.train(mode)\<close>: sets the flag of the module and of all its descendants.\<close>

primrec train :: "bool \<Rightarrow> module \<Rightarrow> module" where
  "train mode (Module c t ia ps subs) =
     Module c mode ia ps (map (map_prod id (train mode)) subs)"

text \<open>\<open>nn.Module.parameters()\<close>: the module's own parameters, then its descendants'.\<close>

primrec parameters :: "module \<Rightarrow> param list" where
  "parameters (Module c t ia ps subs) =
     map snd ps @ concat (map snd (map (map_prod id parameters) subs))"

text \<open>
  \<open>for param in m.parameters(): param.requires_grad = flag\<close>: every parameter yielded by
  \<open>parameters()\<close> gets the flag, in place.
\<close>

primrec set_requires_grad :: "bool \<Rightarrow> module \<Rightarrow> module" where
  "set_requires_grad flag (Module c t ia ps subs) =
     Module c t ia (map (map_prod id (\<lambda>p. Param (param_data p) flag)) ps)
       (map (map_prod id (set_requires_grad flag)) subs)"

text \<open>Whether a module and all its descendants are in evaluation mode.\<close>

primrec all_eval :: "module \<Rightarrow> bool" where
  "all_eval (Module c t ia ps subs) \<longleftrightarrow>
     \<not> t \<and> list_all snd (map (map_prod id all_eval) subs)"

text \<open>\<open>torch.cat([a, b], dim=1)\<close> of two batches: row by row; the batch sizes must agree.\<close>

definition torch_cat1 :: "tensor \<Rightarrow> tensor \<Rightarrow> py_error + tensor" where
  "torch_cat1 a b = (if length a = length b then Inr (map2 (@) a b) else Inl RuntimeError)"

text \<open>
  What the framework and the module \<open>vae\<close> (imported by \<open>dgm.py\<close>, its source not among
  the examined files) provide. \<open>'n\<close> is the randomness an operation consumes.
  \<^item> \<open>Linear_init\<close>, \<open>Linear_call\<close>: \<open>nn.Linear(in, out)\<close> and its application.
  \<^item> \<open>Encoder_call\<close>: \<open>vae.Encoder\<close> applied to a batch: a latent sample drawn with the
    given randomness, its mean and its log-variance. \<open>Decoder_call\<close>: \<open>vae.Decoder\<close>.
  \<^item> \<open>DeepGenerativeModel_init\<close>: the object that \<open>DeepGenerativeModel.__init__\<close> leaves for
    the given dimensions \<open>(x_dim, y_dim, z_dim, h_dim)\<close> and ratio; it is assembled from
    constructors of \<open>vae\<close> and of the framework.
\<close>

record 'n torch =
  Linear_init :: "'n \<Rightarrow> nat \<Rightarrow> nat \<Rightarrow> module"
  Linear_call :: "module \<Rightarrow> tensor \<Rightarrow> py_error + tensor"
  Encoder_call :: "module \<Rightarrow> 'n \<Rightarrow> tensor \<Rightarrow> py_error + (tensor \<times> tensor \<times> tensor)"
  Decoder_call :: "module \<Rightarrow> tensor \<Rightarrow> py_error + tensor"
  DeepGenerativeModel_init :: "'n \<Rightarrow> nat \<times> nat \<times> nat \<times> nat list \<Rightarrow> real \<Rightarrow> module"

text \<open>
  \<open>F.softplus\<close> (beta 1, threshold 20: linear above the threshold) and the file's own
  \<open>softmax(input, dim=-1)\<close>, which for a batch of rows is the softmax of each row.
\<close>

definition softplus :: "real \<Rightarrow> real" where
  "softplus v = (if v > 20 then v else ln (1 + exp v))"

definition softmax_rows :: "tensor \<Rightarrow> tensor" where
  "softmax_rows t = map (\<lambda>row. map (\<lambda>v. exp v / (\<Sum>w\<leftarrow>row. exp w)) row) t"

text \<open>\<open>Classifier.forward\<close>.\<close>

definition Classifier_forward :: "'n torch \<Rightarrow> module \<Rightarrow> tensor \<Rightarrow> py_error + tensor" where
  "Classifier_forward T self x =
     bind_err (getattr_module self ''dense'') (\<lambda>dense.
     bind_err (Linear_call T dense x) (\<lambda>x.
     let x = map (map softplus) x in
     bind_err (getattr_module self ''logits'') (\<lambda>logits.
     bind_err (Linear_call T logits x) (\<lambda>x.
     Inr (softmax_rows x)))))"

text \<open>
  What a forward pass returns: the logits alone when no labels are given, otherwise the
  triple \<open>reconstruction, logits, [[z, z_mu, z_log_var]]\<close>.
\<close>

datatype forward_result =
    Logits tensor
  | Reconstruction tensor tensor "tensor list list"

text \<open>\<open>DeepGenerativeModel.forward(x, y)\<close>; \<open>noise\<close> is what its encoder samples with.\<close>

definition DeepGenerativeModel_forward ::
  "'n torch \<Rightarrow> module \<Rightarrow> 'n \<Rightarrow> tensor \<Rightarrow> tensor option \<Rightarrow> py_error + forward_result" where
  "DeepGenerativeModel_forward T self noise x y =
     bind_err (getattr_module self ''classifier'') (\<lambda>classifier.
     bind_err (Classifier_forward T classifier x) (\<lambda>logits.
     case y of
       None \<Rightarrow> Inr (Logits logits)
     | Some y \<Rightarrow>
         bind_err (torch_cat1 x y) (\<lambda>xy.
         bind_err (getattr_module self ''encoder'') (\<lambda>encoder.
         bind_err (Encoder_call T encoder noise xy) (\<lambda>zs.
         let z = fst zs; z_mu = fst (snd zs); z_log_var = snd (snd zs) in
         bind_err (torch_cat1 z y) (\<lambda>zy.
         bind_err (getattr_module self ''decoder'') (\<lambda>decoder.
         bind_err (Decoder_call T decoder zy) (\<lambda>reconstruction.
         Inr (Reconstruction reconstruction logits [[z, z_mu, z_log_var]])))))))))"

text \<open>
  \<open>StackedDeepGenerativeModel.forward(x, y)\<close>; \<open>noise1\<close> is what the encoder of the
  features model samples with, \<open>noise2\<close> what the model's own encoder samples with.
\<close>

definition StackedDeepGenerativeModel_forward ::
  "'n torch \<Rightarrow> module \<Rightarrow> 'n \<Rightarrow> 'n \<Rightarrow> tensor \<Rightarrow> tensor option \<Rightarrow> py_error + forward_result" where
  "StackedDeepGenerativeModel_forward T self noise1 noise2 x y =
     bind_err (getattr_module self ''features'') (\<lambda>features.
     bind_err (getattr_module features ''encoder'') (\<lambda>features_encoder.
     bind_err (Encoder_call T features_encoder noise1 x) (\<lambda>xs.
     let x_sample = fst xs in
     DeepGenerativeModel_forward T self noise2 x_sample y)))"

text \<open>
  \<open>StackedDeepGenerativeModel.__init__(dims, ratio, features)\<close>. The caller's \<open>features\<close>
  object is the one stored, switched to evaluation mode and frozen.
\<close>

definition StackedDeepGenerativeModel_init ::
  "'n torch \<Rightarrow> 'n \<Rightarrow> nat \<times> nat \<times> nat \<times> nat list \<Rightarrow> real \<Rightarrow> module \<Rightarrow> py_error + module" where
  "StackedDeepGenerativeModel_init T rng dims ratio features =
     (let x_dim = fst dims; y_dim = fst (snd dims); z_dim = fst (snd (snd dims));
          h_dim = snd (snd (snd dims))
      in
      bind_err (getattr_int features ''z_dim'') (\<lambda>features_z_dim.
      let self = DeepGenerativeModel_init T rng (features_z_dim, y_dim, z_dim, h_dim) ratio in
      bind_err (getattr_module self ''decoder'') (\<lambda>decoder.
      bind_err (getattr_module decoder ''reconstruction'') (\<lambda>reconstruction.
      bind_err (getattr_int reconstruction ''in_features'') (\<lambda>in_features.
      let decoder = setattr_module decoder ''reconstruction'' (Linear_init T rng in_features x_dim);
          self = setattr_module self ''decoder'' decoder;
          features = train False features;
          features = set_requires_grad False features;
          self = setattr_module self ''features'' features
      in Inr self)))))"

text \<open>
  One step of an optimizer over a module: a parameter that requires a gradient gets the
  data \<open>upd\<close> computes for it; a parameter that does not require one receives no gradient
  and is left as it is.
\<close>

primrec optimizer_step :: "(tensor \<Rightarrow> tensor) \<Rightarrow> module \<Rightarrow> module" where
  "optimizer_step upd (Module c t ia ps subs) =
     Module c t ia
       (map (map_prod id (\<lambda>p. if requires_grad p then Param (upd (param_data p)) True else p)) ps)
       (map (map_prod id (optimizer_step upd)) subs)"

section \<open>Contracts of the framework and a small instance\<close>


text \<open>One admissible \<open>argsort\<close>: the stable one.\<close>

definition stable_argsort :: "real list \<Rightarrow> nat list" where
  "stable_argsort a = sort_key (\<lambda>i. a ! i) [0..<length a]"

text \<open>
  A small instance on which the loop body runs: a pool of 2000 one-pixel images, every
  second label withheld, a framework that predicts the uniform distribution, counts the
  training examples as its "weights", and whose nearest-neighbour rule always answers 7.
\<close>

definition toy_framework :: "(nat, unit) framework" where
  "toy_framework =
     \<lparr>Sequential_compile = (\<lambda>env r layers c. 0),
      fit = (\<lambda>env m r x y b e. m + length x),
      predict = (\<lambda>env m r X b. replicate (length X) (replicate num_classes (1 / 10))),
      evaluate = (\<lambda>env m x y. [0, 1]),
      argsort = stable_argsort,
      knn = (\<lambda>rx ry k q. 7)\<rparr>"

definition toy_draws :: "unit draws" where
  "toy_draws =
     \<lparr>sample = (\<lambda>n k. [0..<k]), dropout_noise = (\<lambda>d. ()), init_noise = (), fit_noise = ()\<rparr>"

definition toy_x_pool :: "image list" where
  "toy_x_pool = map (\<lambda>i. [real i]) [0..<2000]"

definition toy_y_pool :: "nat list" where
  "toy_y_pool = map (\<lambda>i. if even i then 10 else 3) [0..<2000]"

definition toy_oracle :: "image KNOracle" where
  "toy_oracle =
     \<lparr>ref_x = map fst (filter snd (zip toy_x_pool (map (\<lambda>l. l \<noteq> 10) toy_y_pool))),
      ref_y = map fst (filter snd (zip toy_y_pool (map (\<lambda>l. l \<noteq> 10) toy_y_pool))),
      n_neighbors = 3, n_jobs = 2\<rparr>"

definition toy_state :: "nat script_state" where
  "toy_state =
     \<lparr>os_environ = [''CUDA_VISIBLE_DEVICES'' \<mapsto> ''0''],
      the_oracle = toy_oracle,
      x_train = [], y_train = [],
      x_pool = toy_x_pool, y_pool = toy_y_pool,
      x_test = [], y_test = [],
      model = 5, score = [],
      pool_subset_dropout = [], X_Pool_Dropout = [], y_Pool_Dropout = [],
      U_X = [], x_pool_index = [], Pooled_X = [], Pooled_Y = [],
      Pooled_Y_categorical = [], index_unknown_to_oracle = [],
      delete_Pool_X = [], delete_Pool_Y = [],
      delete_Pool_X_Dropout = [], delete_Pool_Y_Dropout = []\<rparr>"

text \<open>
  A small instance for the generative models: linear layers that pass their input on, an
  encoder whose sample is its input shifted by the randomness, and small modules.
\<close>

definition toy_linear :: "real \<Rightarrow> nat \<Rightarrow> nat \<Rightarrow> module" where
  "toy_linear n i o' =
     Module ''Linear'' True [(''in_features'', i), (''out_features'', o')]
       [(''weight'', Param (replicate o' (replicate i n)) True),
        (''bias'', Param [replicate o' 0] True)] []"

definition toy_encoder :: module where
  "toy_encoder = Module ''Encoder'' True [] [(''w'', Param [[1]] True)] []"

definition toy_decoder :: module where
  "toy_decoder = Module ''Decoder'' True [] [] [(''reconstruction'', toy_linear 1 3 4)]"

definition toy_classifier :: module where
  "toy_classifier =
     Module ''Classifier'' True [] [] [(''dense'', toy_linear 1 2 2), (''logits'', toy_linear 1 2 2)]"

definition toy_dgm :: module where
  "toy_dgm =
     Module ''StackedDeepGenerativeModel'' True [(''y_dim'', 2)] []
       [(''encoder'', toy_encoder), (''decoder'', toy_decoder), (''classifier'', toy_classifier)]"

definition toy_features :: module where
  "toy_features =
     Module ''VariationalAutoencoder'' True [(''z_dim'', 2)] []
       [(''encoder'', toy_encoder), (''decoder'', toy_decoder)]"

definition toy_torch :: "real torch" where
  "toy_torch =
     \<lparr>Linear_init = toy_linear,
      Linear_call = (\<lambda>m x. Inr x),
      Encoder_call = (\<lambda>m n x. Inr (map (map (\<lambda>v. v + n)) x, x, x)),
      Decoder_call = (\<lambda>m x. Inr x),
      DeepGenerativeModel_init = (\<lambda>n dims ratio. toy_dgm)\<rparr>"

text \<open>
  Input arrays for a run of the whole script on the small framework: 12000 one-pixel
  training images with the labels 0, 1, ..., 9 repeating, no validation data and a single
  test image.
\<close>

definition toy_arrays :: mnist_arrays where
  "toy_arrays =
     \<lparr>in_x_train = map (\<lambda>i. [real i]) [0..<12000],
      in_y_train = map (\<lambda>i. i mod 10) [0..<12000],
      in_x_valid = [], in_y_valid = [],
      in_x_test = [[0]], in_y_test = [0]\<rparr>"

section \<open>Verification\<close>

lemma bind_err_Inr [simp]: "bind_err (Inr v) f = f v"
  by (simp add: bind_err_def)

lemma bind_err_Inl [simp]: "bind_err (Inl e) f = Inl e"
  by (simp add: bind_err_def)

lemma np_take_in_range:
  "\<forall>i\<in>set idx. i < length xs \<Longrightarrow> np_take xs idx = Inr (map (\<lambda>i. xs ! i) idx)"
  by (simp add: np_take_def list_all_iff)

lemma length_np_where_eq: "length (np_where_eq ys c) = count_list ys c"
proof -
  have "length (filter (\<lambda>i. ys ! i = c) [0..<length ys])
        = length (filter (\<lambda>y. y = c) (map (\<lambda>i. ys ! i) [0..<length ys]))"
    by (simp add: filter_map comp_def)
  also have "\<dots> = length (filter (\<lambda>y. y = c) ys)"
    by (simp add: map_nth)
  also have "\<dots> = count_list ys c"
    by (induction ys) auto
  finally show ?thesis by (simp add: np_where_eq_def)
qed

lemma set_np_where_eq: "set (np_where_eq ys c) = {i. i < length ys \<and> ys ! i = c}"
  by (auto simp: np_where_eq_def)

lemma sorted_np_where_eq: "sorted_wrt (<) (np_where_eq ys c)"
  unfolding np_where_eq_def by (rule sorted_wrt_filter) (simp add: sorted_wrt_upt) 

lemma first_two_of_class:
  assumes "2 \<le> count_list ys c"
  obtains i1 i2 where "take 2 (np_where_eq ys c) = [i1, i2]" "i1 < i2" "i2 < length ys"
    "ys ! i1 = c" "ys ! i2 = c" "\<forall>j<i2. ys ! j = c \<longrightarrow> j = i1"
proof -
  from assms have "2 \<le> length (np_where_eq ys c)" by (simp add: length_np_where_eq)
  then obtain i1 i2 rest where L: "np_where_eq ys c = i1 # i2 # rest"
    by (cases "np_where_eq ys c"; cases "tl (np_where_eq ys c)") auto
  have s: "sorted_wrt (<) (i1 # i2 # rest)" using sorted_np_where_eq[of ys c] L by simp
  have mem: "\<And>j. j \<in> set (i1 # i2 # rest) \<longleftrightarrow> j < length ys \<and> ys ! j = c"
    using set_np_where_eq[of ys c] L by auto
  have a: "i1 < i2" using s by simp
  have b: "i2 < length ys" "ys ! i1 = c" "ys ! i2 = c" using mem by auto
  have c: "\<forall>j<i2. ys ! j = c \<longrightarrow> j = i1"
  proof (intro allI impI)
    fix j assume "j < i2" "ys ! j = c"
    then have "j < length ys \<and> ys ! j = c" using b(1) by simp
    then have "j \<in> set (i1 # i2 # rest)" by (simp only: mem)
    then have "j = i1 \<or> j = i2 \<or> j \<in> set rest" by simp
    moreover have "\<forall>x\<in>set rest. i2 < x" using s by simp
    ultimately show "j = i1" using \<open>j < i2\<close> by force
  qed
  have t: "take 2 (np_where_eq ys c) = [i1, i2]" using L by simp
  show thesis by (rule that[OF t a b c])
qed

lemma uniform_class_block_first_two:
  assumes "length xs = length ys" "2 \<le> count_list ys c"
  obtains i1 i2 where
    "uniform_class_block xs ys c = Inr ([xs ! i1, xs ! i2], [c, c])"
    "first_two_occurrences ys c i1 i2" "ys ! i1 = c" "ys ! i2 = c"
proof -
  from first_two_of_class[OF assms(2)] obtain i1 i2 where
    t: "take 2 (np_where_eq ys c) = [i1, i2]" and p: "i1 < i2" "i2 < length ys"
    "ys ! i1 = c" "ys ! i2 = c" "\<forall>j<i2. ys ! j = c \<longrightarrow> j = i1"
    by blast
  have r: "uniform_class_block xs ys c = Inr ([xs ! i1, xs ! i2], [c, c])"
    using t p(1,2,3,4) assms(1) by (simp add: uniform_class_block_def np_take_def)
  have f: "first_two_occurrences ys c i1 i2"
    unfolding first_two_occurrences_def
  proof (intro conjI ballI impI)
    fix j assume "j \<in> set [0..<i2]" and yj: "ys ! j = c"
    then have "j < i2" by simp
    with p(5) yj show "j = i1" by blast
  qed (rule p)+
  show thesis by (rule that[OF r f p(3) p(4)])
qed



subsection \<open>The twenty selected positions\<close>

lemma uniform_training_data_positions:
  assumes len: "length xs = length ys"
      and two: "\<forall>c<10. 2 \<le> count_list ys c"
  obtains a0 b0 a1 b1 a2 b2 a3 b3 a4 b4 a5 b5 a6 b6 a7 b7 a8 b8 a9 b9 where
    "get_uniform_training_data xs ys =
      Inr (map (\<lambda>i. xs ! i)
             [a0, b0, a1, b1, a2, b2, a3, b3, a4, b4, a5, b5, a6, b6, a7, b7, a8, b8, a9, b9],
           [0,0,1,1,2,2,3,3,4,4,5,5,6,6,7,7,8,8,9,9])"
    "map (\<lambda>i. ys ! i)
       [a0, b0, a1, b1, a2, b2, a3, b3, a4, b4, a5, b5, a6, b6, a7, b7, a8, b8, a9, b9]
     = [0,0,1,1,2,2,3,3,4,4,5,5,6,6,7,7,8,8,9,9]"
    "first_two_occurrences ys 0 a0 b0" "first_two_occurrences ys 1 a1 b1"
    "first_two_occurrences ys 2 a2 b2" "first_two_occurrences ys 3 a3 b3"
    "first_two_occurrences ys 4 a4 b4" "first_two_occurrences ys 5 a5 b5"
    "first_two_occurrences ys 6 a6 b6" "first_two_occurrences ys 7 a7 b7"
    "first_two_occurrences ys 8 a8 b8" "first_two_occurrences ys 9 a9 b9"
proof -
  have t0: "2 \<le> count_list ys 0" using two by simp
  obtain a0 b0 where r0: "uniform_class_block xs ys 0 = Inr ([xs ! a0, xs ! b0], [0, 0])"
    and f0: "first_two_occurrences ys 0 a0 b0"
    and y0: "ys ! a0 = 0" "ys ! b0 = 0"
    by (rule uniform_class_block_first_two[OF len t0])
  have t1: "2 \<le> count_list ys 1" using two by simp
  obtain a1 b1 where r1: "uniform_class_block xs ys 1 = Inr ([xs ! a1, xs ! b1], [1, 1])"
    and f1: "first_two_occurrences ys 1 a1 b1"
    and y1: "ys ! a1 = 1" "ys ! b1 = 1"
    by (rule uniform_class_block_first_two[OF len t1])
  have t2: "2 \<le> count_list ys 2" using two by simp
  obtain a2 b2 where r2: "uniform_class_block xs ys 2 = Inr ([xs ! a2, xs ! b2], [2, 2])"
    and f2: "first_two_occurrences ys 2 a2 b2"
    and y2: "ys ! a2 = 2" "ys ! b2 = 2"
    by (rule uniform_class_block_first_two[OF len t2])
  have t3: "2 \<le> count_list ys 3" using two by simp
  obtain a3 b3 where r3: "uniform_class_block xs ys 3 = Inr ([xs ! a3, xs ! b3], [3, 3])"
    and f3: "first_two_occurrences ys 3 a3 b3"
    and y3: "ys ! a3 = 3" "ys ! b3 = 3"
    by (rule uniform_class_block_first_two[OF len t3])
  have t4: "2 \<le> count_list ys 4" using two by simp
  obtain a4 b4 where r4: "uniform_class_block xs ys 4 = Inr ([xs ! a4, xs ! b4], [4, 4])"
    and f4: "first_two_occurrences ys 4 a4 b4"
    and y4: "ys ! a4 = 4" "ys ! b4 = 4"
    by (rule uniform_class_block_first_two[OF len t4])
  have t5: "2 \<le> count_list ys 5" using two by simp
  obtain a5 b5 where r5: "uniform_class_block xs ys 5 = Inr ([xs ! a5, xs ! b5], [5, 5])"
    and f5: "first_two_occurrences ys 5 a5 b5"
    and y5: "ys ! a5 = 5" "ys ! b5 = 5"
    by (rule uniform_class_block_first_two[OF len t5])
  have t6: "2 \<le> count_list ys 6" using two by simp
  obtain a6 b6 where r6: "uniform_class_block xs ys 6 = Inr ([xs ! a6, xs ! b6], [6, 6])"
    and f6: "first_two_occurrences ys 6 a6 b6"
    and y6: "ys ! a6 = 6" "ys ! b6 = 6"
    by (rule uniform_class_block_first_two[OF len t6])
  have t7: "2 \<le> count_list ys 7" using two by simp
  obtain a7 b7 where r7: "uniform_class_block xs ys 7 = Inr ([xs ! a7, xs ! b7], [7, 7])"
    and f7: "first_two_occurrences ys 7 a7 b7"
    and y7: "ys ! a7 = 7" "ys ! b7 = 7"
    by (rule uniform_class_block_first_two[OF len t7])
  have t8: "2 \<le> count_list ys 8" using two by simp
  obtain a8 b8 where r8: "uniform_class_block xs ys 8 = Inr ([xs ! a8, xs ! b8], [8, 8])"
    and f8: "first_two_occurrences ys 8 a8 b8"
    and y8: "ys ! a8 = 8" "ys ! b8 = 8"
    by (rule uniform_class_block_first_two[OF len t8])
  have t9: "2 \<le> count_list ys 9" using two by simp
  obtain a9 b9 where r9: "uniform_class_block xs ys 9 = Inr ([xs ! a9, xs ! b9], [9, 9])"
    and f9: "first_two_occurrences ys 9 a9 b9"
    and y9: "ys ! a9 = 9" "ys ! b9 = 9"
    by (rule uniform_class_block_first_two[OF len t9])
  let ?idx = "[a0, b0, a1, b1, a2, b2, a3, b3, a4, b4, a5, b5, a6, b6, a7, b7, a8, b8, a9, b9]"
  have labels: "map (\<lambda>i. ys ! i) ?idx = [0,0,1,1,2,2,3,3,4,4,5,5,6,6,7,7,8,8,9,9]"
    by (simp only: list.map y0 y1 y2 y3 y4 y5 y6 y7 y8 y9)
  have run: "get_uniform_training_data xs ys =
      Inr (map (\<lambda>i. xs ! i) ?idx, [0,0,1,1,2,2,3,3,4,4,5,5,6,6,7,7,8,8,9,9])"
    by (simp only: get_uniform_training_data_def r0 r1 r2 r3 r4 r5 r6 r7 r8 r9
          bind_err_Inr prod.case append.simps list.map)
  show thesis by (rule that[OF run labels f0 f1 f2 f3 f4 f5 f6 f7 f8 f9])
qed

subsection \<open>C9: the initial training set holds the first two examples of each digit\<close>

text \<open>
  Claim C9. For aligned arrays \<open>xs\<close>, \<open>ys\<close> in which every digit 0 to 9
  occurs at least twice, \<open>get_uniform_training_data\<close> returns (without raising) exactly
  20 examples: the rows at 20 positions \<open>idx\<close> of the input, whose labels read
  0,0,1,1,...,9,9, and for every class \<open>c\<close> the positions \<open>idx ! (2c)\<close> and
  \<open>idx ! (2c+1)\<close> are the first two occurrences of \<open>c\<close> in \<open>ys\<close>.
\<close>

theorem get_uniform_training_data_first_two:
  assumes len: "length xs = length ys"
      and two: "\<forall>c<10. 2 \<le> count_list ys c"
  shows "\<exists>idx. get_uniform_training_data xs ys =
            Inr (map (\<lambda>i. xs ! i) idx, map (\<lambda>i. ys ! i) idx)
         \<and> length idx = 20
         \<and> map (\<lambda>i. ys ! i) idx = [0,0,1,1,2,2,3,3,4,4,5,5,6,6,7,7,8,8,9,9]
         \<and> (\<forall>c<10. first_two_occurrences ys c (idx ! (2 * c)) (idx ! (2 * c + 1)))"
proof -
  from uniform_training_data_positions[OF len two]
  obtain a0 b0 a1 b1 a2 b2 a3 b3 a4 b4 a5 b5 a6 b6 a7 b7 a8 b8 a9 b9 where
    run: "get_uniform_training_data xs ys =
      Inr (map (\<lambda>i. xs ! i)
             [a0, b0, a1, b1, a2, b2, a3, b3, a4, b4, a5, b5, a6, b6, a7, b7, a8, b8, a9, b9],
           [0,0,1,1,2,2,3,3,4,4,5,5,6,6,7,7,8,8,9,9])"
    and labels: "map (\<lambda>i. ys ! i)
       [a0, b0, a1, b1, a2, b2, a3, b3, a4, b4, a5, b5, a6, b6, a7, b7, a8, b8, a9, b9]
     = [0,0,1,1,2,2,3,3,4,4,5,5,6,6,7,7,8,8,9,9]"
    and f0: "first_two_occurrences ys 0 a0 b0" and f1: "first_two_occurrences ys 1 a1 b1"
    and f2: "first_two_occurrences ys 2 a2 b2" and f3: "first_two_occurrences ys 3 a3 b3"
    and f4: "first_two_occurrences ys 4 a4 b4" and f5: "first_two_occurrences ys 5 a5 b5"
    and f6: "first_two_occurrences ys 6 a6 b6" and f7: "first_two_occurrences ys 7 a7 b7"
    and f8: "first_two_occurrences ys 8 a8 b8" and f9: "first_two_occurrences ys 9 a9 b9"
    .
  let ?idx = "[a0, b0, a1, b1, a2, b2, a3, b3, a4, b4, a5, b5, a6, b6, a7, b7, a8, b8, a9, b9]"
  have each: "first_two_occurrences ys c (?idx ! (2 * c)) (?idx ! (2 * c + 1))" if "c < 10" for c
  proof -
    from that have "c = 0 \<or> c = 1 \<or> c = 2 \<or> c = 3 \<or> c = 4 \<or> c = 5 \<or> c = 6 \<or> c = 7 \<or> c = 8 \<or> c = 9"
      by arith
    then show ?thesis
      using f0 f1 f2 f3 f4 f5 f6 f7 f8 f9 by (elim disjE) simp_all
  qed
  show ?thesis
  proof (intro exI[of _ ?idx] conjI allI impI)
    show "get_uniform_training_data xs ys =
            Inr (map (\<lambda>i. xs ! i) ?idx, map (\<lambda>i. ys ! i) ?idx)"
      by (simp only: run labels)
    show "length ?idx = 20" by simp
    show "map (\<lambda>i. ys ! i) ?idx = [0,0,1,1,2,2,3,3,4,4,5,5,6,6,7,7,8,8,9,9]" by (rule labels)
    show "first_two_occurrences ys c (?idx ! (2 * c)) (?idx ! (2 * c + 1))" if "c < 10" for c
      by (rule each[OF that])
  qed
qed

text \<open>
  The hypotheses hold for a 22-example data set with the classes in reverse order and a
  third 9 and 0 at the end.
\<close>

theorem get_uniform_training_data_first_two_witness:
  "length [100::nat,101,102,103,104,105,106,107,108,109,110,111,112,113,114,115,116,117,118,119,120,121]
     = length [9::nat,9,8,8,7,7,6,6,5,5,4,4,3,3,2,2,1,1,0,0,9,0]
   \<and> list_all (\<lambda>c. 2 \<le> count_list [9::nat,9,8,8,7,7,6,6,5,5,4,4,3,3,2,2,1,1,0,0,9,0] c) [0..<10]
   \<and> (\<exists>idx. get_uniform_training_data
         [100::nat,101,102,103,104,105,106,107,108,109,110,111,112,113,114,115,116,117,118,119,120,121]
         [9::nat,9,8,8,7,7,6,6,5,5,4,4,3,3,2,2,1,1,0,0,9,0]
       = Inr (map (\<lambda>i. [100::nat,101,102,103,104,105,106,107,108,109,110,111,112,113,114,115,116,117,118,119,120,121] ! i) idx,
              [0,0,1,1,2,2,3,3,4,4,5,5,6,6,7,7,8,8,9,9])
       \<and> length idx = 20)"
proof -
  let ?X = "[100::nat,101,102,103,104,105,106,107,108,109,110,111,112,113,114,115,116,117,118,119,120,121]"
  let ?Y = "[9::nat,9,8,8,7,7,6,6,5,5,4,4,3,3,2,2,1,1,0,0,9,0]"
  have h1: "length ?X = length ?Y" by simp
  have h2': "list_all (\<lambda>c. 2 \<le> count_list ?Y c) [0..<10]" by code_simp
  then have h2'': "\<forall>c\<in>set [0..<10]. 2 \<le> count_list ?Y c" by (simp only: list_all_iff)
  have h2: "\<forall>c<10. 2 \<le> count_list ?Y c"
  proof (intro allI impI)
    fix c :: nat assume "c < 10"
    then have "c \<in> set [0..<10]" by simp
    with h2'' show "2 \<le> count_list ?Y c" by (rule bspec)
  qed
  from get_uniform_training_data_first_two[OF h1 h2] obtain idx where
    *: "get_uniform_training_data ?X ?Y = Inr (map (\<lambda>i. ?X ! i) idx, map (\<lambda>i. ?Y ! i) idx)
      \<and> length idx = 20
      \<and> map (\<lambda>i. ?Y ! i) idx = [0,0,1,1,2,2,3,3,4,4,5,5,6,6,7,7,8,8,9,9]
      \<and> (\<forall>c<10. first_two_occurrences ?Y c (idx ! (2 * c)) (idx ! (2 * c + 1)))" ..
  note A = *[THEN conjunct1] and B = *[THEN conjunct2, THEN conjunct1]
    and C = *[THEN conjunct2, THEN conjunct2, THEN conjunct1]
  have D: "get_uniform_training_data ?X ?Y
       = Inr (map (\<lambda>i. ?X ! i) idx, [0,0,1,1,2,2,3,3,4,4,5,5,6,6,7,7,8,8,9,9])"
    by (rule trans[OF A]) (simp only: C)
  have E: "\<exists>idx. get_uniform_training_data ?X ?Y
       = Inr (map (\<lambda>i. ?X ! i) idx, [0,0,1,1,2,2,3,3,4,4,5,5,6,6,7,7,8,8,9,9]) \<and> length idx = 20"
    by (rule exI[of _ idx]) (rule conjI[OF D B])
  show ?thesis by (rule conjI[OF h1 conjI[OF h2' E]])
qed

subsection \<open>Rounding, masked assignment and boolean masks\<close>

lemma np_round_half_nearest:
  "\<bar>real (np_round_half n) - real n / 2\<bar> \<le> 1 / 2"
proof (cases "even n")
  case True
  then obtain k where "n = 2 * k" by (elim evenE)
  then show ?thesis by (simp add: np_round_half_def)
next
  case False
  then obtain k where n: "n = 2 * k + 1" by (elim oddE)
  then have "n div 2 = k" by simp
  with False have "np_round_half n = k \<or> np_round_half n = k + 1"
    by (simp add: np_round_half_def Let_def)
  moreover have "real n = 2 * real k + 1" using n by simp
  ultimately show ?thesis by (elim disjE) (simp_all add: field_simps)
qed

lemma np_round_half_tie_even: "odd n \<Longrightarrow> even (np_round_half n)"
  by (simp add: np_round_half_def Let_def)

lemma np_round_half_even: "even n \<Longrightarrow> 2 * np_round_half n = n"
  by (auto simp add: np_round_half_def Let_def)

lemma np_round_half_le: "np_round_half n \<le> n"
proof (cases "odd n")
  case True
  then have "0 < n" by (rule odd_pos)
  then have "n div 2 < n" by simp
  then show ?thesis by (simp add: np_round_half_def Let_def)
next
  case False
  then show ?thesis by (simp add: np_round_half_def Let_def)
qed

lemma length_fold_update: "length (fold (\<lambda>i a. a[i := v]) z ys) = length ys"
  by (induction z arbitrary: ys) auto

lemma nth_fold_update:
  "j < length ys \<Longrightarrow> fold (\<lambda>i a. a[i := v]) z ys ! j = (if j \<in> set z then v else ys ! j)"
proof (induction z arbitrary: ys)
  case Nil
  then show ?case by simp
next
  case (Cons i z)
  have "fold (\<lambda>i a. a[i := v]) (i # z) ys ! j = fold (\<lambda>i a. a[i := v]) z (ys[i := v]) ! j"
    by simp
  also have "\<dots> = (if j \<in> set z then v else ys[i := v] ! j)"
    using Cons.prems by (intro Cons.IH) simp
  also have "\<dots> = (if j \<in> set (i # z) then v else ys ! j)"
    using Cons.prems by (auto simp: nth_list_update)
  finally show ?case .
qed

lemma fold_update_prefix:
  assumes "set z = {..<k}" "k \<le> length ys"
  shows "fold (\<lambda>i a. a[i := v]) z ys = replicate k v @ drop k ys"
proof (rule nth_equalityI)
  show "length (fold (\<lambda>i a. a[i := v]) z ys) = length (replicate k v @ drop k ys)"
    using assms(2) by (simp add: length_fold_update)
next
  fix j assume "j < length (fold (\<lambda>i a. a[i := v]) z ys)"
  then have j: "j < length ys" by (simp add: length_fold_update)
  show "fold (\<lambda>i a. a[i := v]) z ys ! j = (replicate k v @ drop k ys) ! j"
    using j assms by (simp add: nth_fold_update nth_append)
qed

lemma count_list_replicate_drop:
  assumes "v \<notin> set ys"
  shows "count_list (replicate k v @ drop k ys) v = k"
proof -
  have "v \<notin> set (drop k ys)" using assms by (meson in_set_dropD)
  then have "count_list (drop k ys) v = 0" by (simp add: count_list_0_iff)
  moreover have "count_list (replicate k v) v = k" by (induction k) auto
  ultimately show ?thesis by simp
qed

lemma mask_pairs:
  "length xs = length ys \<Longrightarrow>
   zip (map fst (filter snd (zip xs (map P ys)))) (map fst (filter snd (zip ys (map P ys))))
   = filter (\<lambda>(x, l). P l) (zip xs ys)"
  by (induction xs ys rule: list_induct2) auto

lemma mask_labels: "map fst (filter snd (zip ys (map P ys))) = filter P ys"
  by (induction ys) auto

lemma mask_length:
  "length xs = length ys \<Longrightarrow>
   length (map fst (filter snd (zip xs (map P ys)))) = length (filter P ys)"
  by (induction xs ys rule: list_induct2) auto


lemma make_oracle_reference:
  assumes "length y = length x"
  shows "\<exists>orc. make_oracle x y = Inr orc
           \<and> zip (ref_x orc) (ref_y orc) = filter (\<lambda>(x, l). l \<noteq> 10) (zip x y)
           \<and> length (ref_x orc) = length (ref_y orc)
           \<and> 10 \<notin> set (ref_y orc) \<and> n_neighbors orc = 3"
proof -
  let ?orc = "\<lparr>ref_x = map fst (filter snd (zip x (map (\<lambda>l. l \<noteq> 10) y))),
               ref_y = map fst (filter snd (zip y (map (\<lambda>l. l \<noteq> 10) y))),
               n_neighbors = 3, n_jobs = 2\<rparr>"
  have run: "make_oracle x y = Inr ?orc"
    using assms by (simp add: make_oracle_def np_mask_def)
  have pairs: "zip (ref_x ?orc) (ref_y ?orc) = filter (\<lambda>(x, l). l \<noteq> 10) (zip x y)"
    using assms mask_pairs[of x y "\<lambda>l. l \<noteq> 10"] by simp
  have len: "length (ref_x ?orc) = length (ref_y ?orc)"
    using assms mask_length[of x y "\<lambda>l. l \<noteq> 10"] by (simp add: mask_labels)
  have no10: "10 \<notin> set (ref_y ?orc)"
    by (simp add: mask_labels)
  have k: "n_neighbors ?orc = 3" by simp
  show ?thesis
    by (rule exI[of _ ?orc]) (rule conjI[OF run conjI[OF pairs conjI[OF len conjI[OF no10 k]]]])
qed

subsection \<open>C3: the sentinel label and the oracle's reference set\<close>

text \<open>
  Claim C3. Let the pool hold \<open>n\<close> points with labels below 10, and let \<open>shuffle\<close>
  permute its argument. Then \<open>remove_pool_labels_for_oracle\<close> returns the label array
  in which the first \<open>np_round_half n\<close> labels are the sentinel 10 and the others are
  unchanged, so exactly \<open>np_round_half n\<close> labels equal 10; \<open>np_round_half n\<close> is the
  integer nearest to \<open>n / 2\<close>, the even one at a tie. The oracle built from this pool
  has as reference set exactly the pool points whose label is not 10, with \<open>k = 3\<close>.
  \<open>get_pool_index_unknown_to_oracle\<close> returns, in ascending order, exactly the positions
  of its argument that hold 10.
\<close>

theorem pool_labels_withheld_from_oracle:
  assumes perm: "mset (shuffle [0..<np_round_half (length xp)])
                 = mset [0..<np_round_half (length xp)]"
      and len: "length yp = length xp"
      and lab: "\<forall>l\<in>set yp. l < 10"
  shows "(\<exists>y'. remove_pool_labels_for_oracle shuffle xp yp = Inr y'
            \<and> y' = replicate (np_round_half (length xp)) 10
                    @ drop (np_round_half (length xp)) yp
            \<and> length y' = length yp
            \<and> count_list y' 10 = np_round_half (length xp)
            \<and> (\<exists>orc. make_oracle xp y' = Inr orc
                  \<and> zip (ref_x orc) (ref_y orc) = filter (\<lambda>(x, l). l \<noteq> 10) (zip xp y')
                  \<and> length (ref_x orc) = length (ref_y orc)
                  \<and> 10 \<notin> set (ref_y orc) \<and> n_neighbors orc = 3))
         \<and> \<bar>real (np_round_half (length xp)) - real (length xp) / 2\<bar> \<le> 1 / 2
         \<and> (odd (length xp) \<longrightarrow> even (np_round_half (length xp)))
         \<and> set (get_pool_index_unknown_to_oracle qy)
             = {i. i < length qy \<and> qy ! i = 10}
         \<and> sorted_wrt (<) (get_pool_index_unknown_to_oracle qy)"
proof -
  let ?k = "np_round_half (length xp)"
  let ?y' = "replicate ?k 10 @ drop ?k yp"
  have kle: "?k \<le> length yp" using len by (simp add: np_round_half_le)
  have setz: "set (shuffle [0..<?k]) = {..<?k}"
  proof -
    have "set (shuffle [0..<?k]) = set [0..<?k]" using perm by (rule mset_eq_setD)
    then show ?thesis by (simp add: lessThan_atLeast0)
  qed
  have inr: "list_all (\<lambda>i. i < length yp) (shuffle [0..<?k])"
    using setz kle by (auto simp: list_all_iff)
  have run: "remove_pool_labels_for_oracle shuffle xp yp = Inr ?y'"
    using inr fold_update_prefix[OF setz kle, of 10]
    by (simp add: remove_pool_labels_for_oracle_def np_put_def)
  have l': "length ?y' = length yp" using kle by simp
  have "10 \<notin> set yp" using lab by auto
  then have cnt: "count_list ?y' 10 = ?k" by (rule count_list_replicate_drop)
  have "length ?y' = length xp" using l' len by simp
  from make_oracle_reference[OF this]
  have orc: "\<exists>orc. make_oracle xp ?y' = Inr orc
                  \<and> zip (ref_x orc) (ref_y orc) = filter (\<lambda>(x, l). l \<noteq> 10) (zip xp ?y')
                  \<and> length (ref_x orc) = length (ref_y orc)
                  \<and> 10 \<notin> set (ref_y orc) \<and> n_neighbors orc = 3" .
  have first: "\<exists>y'. remove_pool_labels_for_oracle shuffle xp yp = Inr y'
            \<and> y' = ?y' \<and> length y' = length yp \<and> count_list y' 10 = ?k
            \<and> (\<exists>orc. make_oracle xp y' = Inr orc
                  \<and> zip (ref_x orc) (ref_y orc) = filter (\<lambda>(x, l). l \<noteq> 10) (zip xp y')
                  \<and> length (ref_x orc) = length (ref_y orc)
                  \<and> 10 \<notin> set (ref_y orc) \<and> n_neighbors orc = 3)"
    by (rule exI[of _ ?y']) (rule conjI[OF run conjI[OF refl conjI[OF l' conjI[OF cnt orc]]]])
  have near: "\<bar>real ?k - real (length xp) / 2\<bar> \<le> 1 / 2" by (rule np_round_half_nearest)
  have tie: "odd (length xp) \<longrightarrow> even ?k" by (simp add: np_round_half_tie_even)
  have idx: "set (get_pool_index_unknown_to_oracle qy)
             = {i. i < length qy \<and> qy ! i = 10}"
    by (simp add: get_pool_index_unknown_to_oracle_def set_np_where_eq)
  have srt: "sorted_wrt (<) (get_pool_index_unknown_to_oracle qy)"
    by (simp add: get_pool_index_unknown_to_oracle_def sorted_np_where_eq)
  show ?thesis by (rule conjI[OF first conjI[OF near conjI[OF tie conjI[OF idx srt]]]])
qed


text \<open>A pool of five points, shuffled by reversal: two labels are withheld.\<close>

theorem pool_labels_withheld_from_oracle_witness:
  "mset (rev [0..<np_round_half (length [[1], [2], [3], [4], [5::real]])])
     = mset [0..<np_round_half (length [[1], [2], [3], [4], [5::real]])]
   \<and> length [3, 1, 4, 1, 5::nat] = length [[1], [2], [3], [4], [5::real]]
   \<and> list_all (\<lambda>l. l < 10) [3, 1, 4, 1, 5::nat]
   \<and> remove_pool_labels_for_oracle rev [[1], [2], [3], [4], [5::real]] [3, 1, 4, 1, 5]
       = Inr [10, 10, 4, 1, 5]
   \<and> np_round_half (length [[1], [2], [3], [4], [5::real]]) = 2
   \<and> set (get_pool_index_unknown_to_oracle [10, 3, 10]) = {0, 2}"
proof -
  let ?X = "[[1], [2], [3], [4], [5::real]]"
  let ?Y = "[3, 1, 4, 1, 5::nat]"
  have k: "np_round_half (length ?X) = 2" by (simp add: np_round_half_def)
  have h1: "mset (rev [0..<np_round_half (length ?X)]) = mset [0..<np_round_half (length ?X)]"
    by simp
  have h2: "length ?Y = length ?X" by simp
  have h3': "list_all (\<lambda>l. l < 10) ?Y" by simp
  have h3: "\<forall>l\<in>set ?Y. l < 10" by simp
  note T = pool_labels_withheld_from_oracle[where shuffle = rev and xp = ?X
      and yp = ?Y and qy = "[10, 3, 10]", OF h1 h2 h3]
  from T[THEN conjunct1] obtain y' where
    y': "remove_pool_labels_for_oracle rev ?X ?Y = Inr y'"
        "y' = replicate (np_round_half (length ?X)) 10 @ drop (np_round_half (length ?X)) ?Y"
    by blast
  have "y' = [10, 10, 4, 1, 5]" unfolding y'(2) k by (simp add: numeral_2_eq_2)
  with y'(1) have r: "remove_pool_labels_for_oracle rev ?X ?Y = Inr [10, 10, 4, 1, 5]" by simp
  have "set (get_pool_index_unknown_to_oracle [10, 3, 10])
        = {i. i < length [10, 3, 10::nat] \<and> [10, 3, 10::nat] ! i = 10}"
    by (rule T[THEN conjunct2, THEN conjunct2, THEN conjunct2, THEN conjunct1])
  also have "\<dots> = {0, 2}"
  proof (rule set_eqI)
    fix i :: nat
    have "i < 3 \<longleftrightarrow> i = 0 \<or> i = 1 \<or> i = 2" by arith
    then show "i \<in> {i. i < length [10, 3, 10::nat] \<and> [10, 3, 10::nat] ! i = 10} \<longleftrightarrow> i \<in> {0, 2}"
      by auto
  qed
  finally have u: "set (get_pool_index_unknown_to_oracle [10, 3, 10]) = {0, 2}" .
  show ?thesis by (rule conjI[OF h1 conjI[OF h2 conjI[OF h3' conjI[OF r conjI[OF k u]]]]])
qed

subsection \<open>The BALD score, array by array\<close>

lemma map2_map_right: "map2 h xs (map f xs) = map (\<lambda>x. h x (f x)) xs"
  by (induction xs) auto

lemma row_entropy: "sum_list (map uminus (map2 (*) r (map (log 2) r))) = entropy2 r"
proof -
  have "map uminus (map2 (*) r (map (log 2) r)) = map (\<lambda>v. - (v * log 2 v)) r"
    by (simp add: map2_map_right)
  also have "sum_list \<dots> = - (\<Sum>v\<leftarrow>r. v * log 2 v)"
    by (induction r) auto
  also have "(\<Sum>v\<leftarrow>r. v * log 2 v) = (\<Sum>v\<leftarrow>r. if v = 0 then 0 else v * log 2 v)"
    by (rule arg_cong[where f = sum_list]) (rule map_cong, auto)
  finally show ?thesis by (simp add: entropy2_def)
qed

lemma entropy_axis1:
  "np_sum_axis1 (np_negative2 (np_multiply2 A (np_log2 A))) = map entropy2 A"
proof -
  have "np_multiply2 A (np_log2 A) = map (\<lambda>r. map2 (*) r (map (log 2) r)) A"
    by (simp add: np_multiply2_def np_log2_def map2_map_right)
  then have "np_sum_axis1 (np_negative2 (np_multiply2 A (np_log2 A)))
      = map (\<lambda>r. sum_list (map uminus (map2 (*) r (map (log 2) r)))) A"
    by (simp only: np_sum_axis1_def np_negative2_def list.map_comp comp_def)
  then show ?thesis by (simp only: row_entropy)
qed

lemma dropout_pass_eq:
  "dropout_pass D (S, E) = (np_add2 S D, np_add1 E (map entropy2 D))"
  by (simp add: dropout_pass_def Let_def entropy_axis1)

lemma fold_passes:
  "fold f [0..<dropout_iterations] a = f (Suc (Suc 0)) (f (Suc 0) (f 0 a))"
proof -
  have "[0..<dropout_iterations] = [0, Suc 0, Suc (Suc 0)]"
    by (simp add: dropout_iterations_def upt_rec)
  then show ?thesis by simp
qed

lemma real_dropout_iterations: "real dropout_iterations = 3"
  by (simp add: dropout_iterations_def)

lemma bald_U_X_eq:
  "bald_U_X P n =
     np_subtract1
       (map entropy2 (map (map (\<lambda>v. v / 3))
          (np_add2 (np_add2 (np_add2 (replicate n (replicate num_classes 0)) (P 0)) (P (Suc 0)))
             (P (Suc (Suc 0))))))
       (map (\<lambda>v. v / 3)
          (np_add1 (np_add1 (np_add1 (replicate n 0) (map entropy2 (P 0)))
             (map entropy2 (P (Suc 0)))) (map entropy2 (P (Suc (Suc 0))))))"
  unfolding bald_U_X_def Let_def fold_passes dropout_pass_eq real_dropout_iterations
    fst_conv snd_conv entropy_axis1 ..

lemma length_np_add2: "length (np_add2 A B) = min (length A) (length B)"
  by (simp add: np_add2_def)

lemma length_np_add1: "length (np_add1 a b) = min (length a) (length b)"
  by (simp add: np_add1_def)

lemma length_np_subtract1: "length (np_subtract1 a b) = min (length a) (length b)"
  by (simp add: np_subtract1_def)





lemma bald_U_X_length:
  assumes "length (P 0) = n" "length (P (Suc 0)) = n" "length (P (Suc (Suc 0))) = n"
  shows "length (bald_U_X P n) = n"
  using assms
  by (simp add: bald_U_X_eq length_np_subtract1 length_np_add1 length_np_add2)


subsection \<open>What a successful pass through the loop body establishes\<close>

lemma bind_err_eq_Inr: "bind_err m f = Inr v \<longleftrightarrow> (\<exists>a. m = Inr a \<and> f a = Inr v)"
  by (cases m) (simp_all add: bind_err_def)

lemma np_take_Inr: "np_take xs idx = Inr r \<longleftrightarrow> (\<forall>i\<in>set idx. i < length xs) \<and> r = map (\<lambda>i. xs ! i) idx"
  by (auto simp: np_take_def list_all_iff)

lemma acquisition_iteration_Inr:
  assumes "acquisition_iteration K R s = Inr s'"
  shows "\<exists>xpd ypd px py0 pxu py pyc dpx dpy dpxd dpyd.
      pool_subset \<le> length (x_pool s)
    \<and> np_take (x_pool s) (sample R (length (x_pool s)) pool_subset) = Inr xpd
    \<and> np_take (y_pool s) (sample R (length (x_pool s)) pool_subset) = Inr ypd
    \<and> np_take xpd (top_queries (argsort K (bald_U_X (\<lambda>d. predict K (os_environ s) (model s)
           (dropout_noise R d) xpd batch_size) (length xpd))) Queries) = Inr px
    \<and> np_take ypd (top_queries (argsort K (bald_U_X (\<lambda>d. predict K (os_environ s) (model s)
           (dropout_noise R d) xpd batch_size) (length xpd))) Queries) = Inr py0
    \<and> np_take px (get_pool_index_unknown_to_oracle py0) = Inr pxu
    \<and> np_put_values py0 (get_pool_index_unknown_to_oracle py0)
          (assign_nearest_available_label (knn K) (the_oracle s) pxu) = Inr py
    \<and> to_categorical py num_classes = Inr pyc
    \<and> np_delete (x_pool s) (sample R (length (x_pool s)) pool_subset) = Inr dpx
    \<and> np_delete (y_pool s) (sample R (length (x_pool s)) pool_subset) = Inr dpy
    \<and> s' = s\<lparr>pool_subset_dropout := sample R (length (x_pool s)) pool_subset,
              X_Pool_Dropout := xpd, y_Pool_Dropout := ypd,
              U_X := bald_U_X (\<lambda>d. predict K (os_environ s) (model s)
                       (dropout_noise R d) xpd batch_size) (length xpd),
              x_pool_index := top_queries (argsort K (bald_U_X (\<lambda>d. predict K (os_environ s)
                       (model s) (dropout_noise R d) xpd batch_size) (length xpd))) Queries,
              Pooled_X := px, Pooled_Y := py,
              index_unknown_to_oracle := get_pool_index_unknown_to_oracle py0,
              Pooled_Y_categorical := pyc,
              delete_Pool_X := dpx, delete_Pool_Y := dpy,
              delete_Pool_X_Dropout := dpxd, delete_Pool_Y_Dropout := dpyd,
              x_pool := x_pool s @ xpd, y_pool := y_pool s @ ypd,
              x_train := x_train s @ px, y_train := y_train s @ pyc,
              model := fit K (os_environ s)
                 (Sequential_compile K (os_environ s) (init_noise R) iteration_layers iteration_compile)
                 (fit_noise R) (x_train s @ px) (y_train s @ pyc) batch_size epochs,
              score := evaluate K (os_environ s) (fit K (os_environ s)
                 (Sequential_compile K (os_environ s) (init_noise R) iteration_layers iteration_compile)
                 (fit_noise R) (x_train s @ px) (y_train s @ pyc) batch_size epochs)
                 (x_test s) (y_test s)\<rparr>"
proof -
  have ge: "pool_subset \<le> length (x_pool s)"
    using assms by (simp add: acquisition_iteration_def split: if_splits)
  then have "\<not> length (x_pool s) < pool_subset" by simp
  with assms show ?thesis
    unfolding acquisition_iteration_def Let_def
    by (simp add: bind_err_eq_Inr) blast
qed


lemma iteration_facts:
  assumes run: "acquisition_iteration K R s = Inr s'"
  shows "pool_subset \<le> length (x_pool s)"
    and "pool_subset_dropout s' = sample R (length (x_pool s)) pool_subset"
    and "\<forall>i\<in>set (pool_subset_dropout s'). i < length (x_pool s) \<and> i < length (y_pool s)"
    and "X_Pool_Dropout s' = map (\<lambda>i. x_pool s ! i) (pool_subset_dropout s')"
    and "y_Pool_Dropout s' = map (\<lambda>i. y_pool s ! i) (pool_subset_dropout s')"
    and "U_X s' = bald_U_X (\<lambda>d. predict K (os_environ s) (model s) (dropout_noise R d)
                     (X_Pool_Dropout s') batch_size) (length (X_Pool_Dropout s'))"
    and "x_pool_index s' = top_queries (argsort K (U_X s')) Queries"
    and "\<forall>i\<in>set (x_pool_index s'). i < length (X_Pool_Dropout s')"
    and "Pooled_X s' = map (\<lambda>i. X_Pool_Dropout s' ! i) (x_pool_index s')"
    and "index_unknown_to_oracle s' = get_pool_index_unknown_to_oracle
            (map (\<lambda>i. y_Pool_Dropout s' ! i) (x_pool_index s'))"
    and "np_put_values (map (\<lambda>i. y_Pool_Dropout s' ! i) (x_pool_index s'))
            (index_unknown_to_oracle s')
            (assign_nearest_available_label (knn K) (the_oracle s)
               (map (\<lambda>i. Pooled_X s' ! i) (index_unknown_to_oracle s')))
          = Inr (Pooled_Y s')"
    and "to_categorical (Pooled_Y s') num_classes = Inr (Pooled_Y_categorical s')"
    and "x_pool s' = x_pool s @ X_Pool_Dropout s'"
    and "y_pool s' = y_pool s @ y_Pool_Dropout s'"
    and "x_train s' = x_train s @ Pooled_X s'"
    and "y_train s' = y_train s @ Pooled_Y_categorical s'"
    and "model s' = fit K (os_environ s)
           (Sequential_compile K (os_environ s) (init_noise R) iteration_layers iteration_compile)
           (fit_noise R) (x_train s') (y_train s') batch_size epochs"
    and "os_environ s' = os_environ s"
    and "the_oracle s' = the_oracle s"
    and "x_test s' = x_test s"
    and "y_test s' = y_test s"
    and "np_delete (x_pool s) (pool_subset_dropout s') = Inr (delete_Pool_X s')"
    and "np_delete (y_pool s) (pool_subset_dropout s') = Inr (delete_Pool_Y s')"
proof -
  from acquisition_iteration_Inr[OF run] obtain xpd ypd px py0 pxu py pyc dpx dpy dpxd dpyd where
    ge: "pool_subset \<le> length (x_pool s)"
    and t1: "np_take (x_pool s) (sample R (length (x_pool s)) pool_subset) = Inr xpd"
    and t2: "np_take (y_pool s) (sample R (length (x_pool s)) pool_subset) = Inr ypd"
    and t3: "np_take xpd (top_queries (argsort K (bald_U_X (\<lambda>d. predict K (os_environ s) (model s)
           (dropout_noise R d) xpd batch_size) (length xpd))) Queries) = Inr px"
    and t4: "np_take ypd (top_queries (argsort K (bald_U_X (\<lambda>d. predict K (os_environ s) (model s)
           (dropout_noise R d) xpd batch_size) (length xpd))) Queries) = Inr py0"
    and t5: "np_take px (get_pool_index_unknown_to_oracle py0) = Inr pxu"
    and t6: "np_put_values py0 (get_pool_index_unknown_to_oracle py0)
          (assign_nearest_available_label (knn K) (the_oracle s) pxu) = Inr py"
    and t7: "to_categorical py num_classes = Inr pyc"
    and t8: "np_delete (x_pool s) (sample R (length (x_pool s)) pool_subset) = Inr dpx"
    and t9: "np_delete (y_pool s) (sample R (length (x_pool s)) pool_subset) = Inr dpy"
    and s': "s' = s\<lparr>pool_subset_dropout := sample R (length (x_pool s)) pool_subset,
              X_Pool_Dropout := xpd, y_Pool_Dropout := ypd,
              U_X := bald_U_X (\<lambda>d. predict K (os_environ s) (model s)
                       (dropout_noise R d) xpd batch_size) (length xpd),
              x_pool_index := top_queries (argsort K (bald_U_X (\<lambda>d. predict K (os_environ s)
                       (model s) (dropout_noise R d) xpd batch_size) (length xpd))) Queries,
              Pooled_X := px, Pooled_Y := py,
              index_unknown_to_oracle := get_pool_index_unknown_to_oracle py0,
              Pooled_Y_categorical := pyc,
              delete_Pool_X := dpx, delete_Pool_Y := dpy,
              delete_Pool_X_Dropout := dpxd, delete_Pool_Y_Dropout := dpyd,
              x_pool := x_pool s @ xpd, y_pool := y_pool s @ ypd,
              x_train := x_train s @ px, y_train := y_train s @ pyc,
              model := fit K (os_environ s)
                 (Sequential_compile K (os_environ s) (init_noise R) iteration_layers iteration_compile)
                 (fit_noise R) (x_train s @ px) (y_train s @ pyc) batch_size epochs,
              score := evaluate K (os_environ s) (fit K (os_environ s)
                 (Sequential_compile K (os_environ s) (init_noise R) iteration_layers iteration_compile)
                 (fit_noise R) (x_train s @ px) (y_train s @ pyc) batch_size epochs)
                 (x_test s) (y_test s)\<rparr>"
    by blast
  note u1 = t1[unfolded np_take_Inr] and u2 = t2[unfolded np_take_Inr]
    and u3 = t3[unfolded np_take_Inr] and u4 = t4[unfolded np_take_Inr]
    and u5 = t5[unfolded np_take_Inr]
  show "pool_subset \<le> length (x_pool s)" by (rule ge)
  show "pool_subset_dropout s' = sample R (length (x_pool s)) pool_subset" by (simp add: s')
  show "\<forall>i\<in>set (pool_subset_dropout s'). i < length (x_pool s) \<and> i < length (y_pool s)"
    using u1 u2 by (simp add: s')
  show "X_Pool_Dropout s' = map (\<lambda>i. x_pool s ! i) (pool_subset_dropout s')"
    using u1 by (simp add: s')
  show "y_Pool_Dropout s' = map (\<lambda>i. y_pool s ! i) (pool_subset_dropout s')"
    using u2 by (simp add: s')
  show "U_X s' = bald_U_X (\<lambda>d. predict K (os_environ s) (model s) (dropout_noise R d)
                     (X_Pool_Dropout s') batch_size) (length (X_Pool_Dropout s'))"
    by (simp add: s')
  show "x_pool_index s' = top_queries (argsort K (U_X s')) Queries" by (simp add: s')
  show "\<forall>i\<in>set (x_pool_index s'). i < length (X_Pool_Dropout s')"
    using u3 by (simp add: s')
  show "Pooled_X s' = map (\<lambda>i. X_Pool_Dropout s' ! i) (x_pool_index s')"
    using u3 by (simp add: s')
  have py0: "py0 = map (\<lambda>i. y_Pool_Dropout s' ! i) (x_pool_index s')"
    using u4 by (simp add: s')
  show "index_unknown_to_oracle s' = get_pool_index_unknown_to_oracle
            (map (\<lambda>i. y_Pool_Dropout s' ! i) (x_pool_index s'))"
    using py0 by (simp add: s')
  have pxu: "pxu = map (\<lambda>i. Pooled_X s' ! i) (index_unknown_to_oracle s')"
    using u5 by (simp add: s')
  have "Pooled_Y s' = py" by (simp add: s')
  with t6 show "np_put_values (map (\<lambda>i. y_Pool_Dropout s' ! i) (x_pool_index s'))
            (index_unknown_to_oracle s')
            (assign_nearest_available_label (knn K) (the_oracle s)
               (map (\<lambda>i. Pooled_X s' ! i) (index_unknown_to_oracle s')))
          = Inr (Pooled_Y s')"
    unfolding py0[symmetric] pxu[symmetric] by (simp add: s')
  show "to_categorical (Pooled_Y s') num_classes = Inr (Pooled_Y_categorical s')"
    using t7 by (simp add: s')
  show "x_pool s' = x_pool s @ X_Pool_Dropout s'" by (simp add: s')
  show "y_pool s' = y_pool s @ y_Pool_Dropout s'" by (simp add: s')
  show "x_train s' = x_train s @ Pooled_X s'" by (simp add: s')
  show "y_train s' = y_train s @ Pooled_Y_categorical s'" by (simp add: s')
  show "model s' = fit K (os_environ s)
           (Sequential_compile K (os_environ s) (init_noise R) iteration_layers iteration_compile)
           (fit_noise R) (x_train s') (y_train s') batch_size epochs"
    by (simp add: s')
  show "os_environ s' = os_environ s" by (simp add: s')
  show "the_oracle s' = the_oracle s" by (simp add: s')
  show "x_test s' = x_test s" by (simp add: s')
  show "y_test s' = y_test s" by (simp add: s')
  show "np_delete (x_pool s) (pool_subset_dropout s') = Inr (delete_Pool_X s')"
    using t8 by (simp add: s')
  show "np_delete (y_pool s) (pool_subset_dropout s') = Inr (delete_Pool_Y s')"
    using t9 by (simp add: s')
qed

subsection \<open>Asking the oracle\<close>

lemma np_delete_in_range:
  "\<forall>i\<in>set idx. i < length xs \<Longrightarrow>
   np_delete xs idx = Inr (map (\<lambda>i. xs ! i) (filter (\<lambda>i. i \<notin> set idx) [0..<length xs]))"
  by (simp add: np_delete_def list_all_iff)

lemma fold_zip_update:
  assumes "length vals = length idx" "distinct idx" "\<forall>i\<in>set idx. i < length ys"
  shows "length (fold (\<lambda>iv a. a[fst iv := snd iv]) (zip idx vals) ys) = length ys
       \<and> (\<forall>k<length idx. fold (\<lambda>iv a. a[fst iv := snd iv]) (zip idx vals) ys ! (idx ! k) = vals ! k)
       \<and> (\<forall>j<length ys. j \<notin> set idx \<longrightarrow>
             fold (\<lambda>iv a. a[fst iv := snd iv]) (zip idx vals) ys ! j = ys ! j)"
  using assms
proof (induction vals idx arbitrary: ys rule: list_induct2)
  case Nil
  then show ?case by simp
next
  case (Cons v vals i idx)
  let ?ys = "ys[i := v]"
  have d: "distinct idx" and ni: "i \<notin> set idx" using Cons.prems(1) by simp_all
  have r: "\<forall>i\<in>set idx. i < length ?ys" using Cons.prems(2) by simp
  note IH = Cons.IH[OF d r]
  have i: "i < length ys" using Cons.prems(2) by simp
  have step: "fold (\<lambda>iv a. a[fst iv := snd iv]) (zip (i # idx) (v # vals)) ys
        = fold (\<lambda>iv a. a[fst iv := snd iv]) (zip idx vals) ?ys" by simp
  show ?case unfolding step
  proof (intro conjI allI impI)
    show "length (fold (\<lambda>iv a. a[fst iv := snd iv]) (zip idx vals) ?ys) = length ys"
      using IH by simp
  next
    fix k assume k: "k < length (i # idx)"
    show "fold (\<lambda>iv a. a[fst iv := snd iv]) (zip idx vals) ?ys ! ((i # idx) ! k) = (v # vals) ! k"
    proof (cases k)
      case 0
      have "fold (\<lambda>iv a. a[fst iv := snd iv]) (zip idx vals) ?ys ! i = ?ys ! i"
        using IH i ni by simp
      then show ?thesis using 0 i by simp
    next
      case (Suc k')
      then have "k' < length idx" using k by simp
      then show ?thesis using IH Suc by simp
    qed
  next
    fix j assume j: "j < length ys" "j \<notin> set (i # idx)"
    then have "fold (\<lambda>iv a. a[fst iv := snd iv]) (zip idx vals) ?ys ! j = ?ys ! j"
      using IH by simp
    then show "fold (\<lambda>iv a. a[fst iv := snd iv]) (zip idx vals) ?ys ! j = ys ! j"
      using j by simp
  qed
qed

lemma np_put_values_Inr:
  assumes "length vals = length idx" "\<forall>i\<in>set idx. i < length ys"
  shows "np_put_values ys idx vals = Inr (fold (\<lambda>iv a. a[fst iv := snd iv]) (zip idx vals) ys)"
  using assms by (simp add: np_put_values_def list_all_iff)

lemma distinct_unknown: "distinct (get_pool_index_unknown_to_oracle qy)"
  by (simp add: get_pool_index_unknown_to_oracle_def np_where_eq_def)

lemma set_unknown:
  "set (get_pool_index_unknown_to_oracle qy) = {i. i < length qy \<and> qy ! i = 10}"
  by (simp add: get_pool_index_unknown_to_oracle_def set_np_where_eq)

lemma length_assign [simp]:
  "length (assign_nearest_available_label f orc X) = length X"
  by (simp add: assign_nearest_available_label_def)

text \<open>The labels after the oracle was asked, position by position.\<close>

lemma oracle_fill:
  fixes py0 :: "nat list"
  shows "\<exists>py. np_put_values py0 (get_pool_index_unknown_to_oracle py0)
               (assign_nearest_available_label f orc
                  (map (\<lambda>i. px ! i) (get_pool_index_unknown_to_oracle py0))) = Inr py
         \<and> length py = length py0
         \<and> (\<forall>k<length py0. py ! k =
               (if py0 ! k = 10 then f (ref_x orc) (ref_y orc) (n_neighbors orc) (px ! k)
                else py0 ! k))"
proof -
  define iu where "iu = get_pool_index_unknown_to_oracle py0"
  define vals where "vals = assign_nearest_available_label f orc (map (\<lambda>i. px ! i) iu)"
  let ?py = "fold (\<lambda>iv a. a[fst iv := snd iv]) (zip iu vals) py0"
  have lv: "length vals = length iu" by (simp add: vals_def)
  have rng: "\<forall>i\<in>set iu. i < length py0" by (simp add: iu_def set_unknown)
  have dis: "distinct iu" by (simp add: iu_def distinct_unknown)
  note F = fold_zip_update[OF lv dis rng]
  have run: "np_put_values py0 iu vals = Inr ?py" by (rule np_put_values_Inr[OF lv rng])
  have len: "length ?py = length py0" using F by simp
  have val: "?py ! k = (if py0 ! k = 10 then f (ref_x orc) (ref_y orc) (n_neighbors orc) (px ! k)
                else py0 ! k)" if k: "k < length py0" for k
  proof (cases "py0 ! k = 10")
    case True
    then have "k \<in> set iu" using k by (simp add: iu_def set_unknown)
    then obtain m where m: "m < length iu" "iu ! m = k" by (auto simp: in_set_conv_nth)
    then have "?py ! k = vals ! m" using F by auto
    also have "\<dots> = f (ref_x orc) (ref_y orc) (n_neighbors orc) (px ! k)"
      using m by (simp add: vals_def assign_nearest_available_label_def)
    finally show ?thesis using True by simp
  next
    case False
    then have "k \<notin> set iu" by (simp add: iu_def set_unknown)
    then have "?py ! k = py0 ! k" using F k by simp
    then show ?thesis using False by simp
  qed
  show ?thesis
    unfolding iu_def[symmetric] vals_def[symmetric]
    by (rule exI[of _ ?py]) (use run len val in blast)
qed

subsection \<open>When the loop body runs to its end\<close>

lemma to_categorical_Inr:
  "\<forall>l\<in>set y. l < n \<Longrightarrow> to_categorical y n = Inr (map (one_hot n) y)"
  by (simp add: to_categorical_def list_all_iff)

lemma is_argsort_set: "is_argsort a idx \<Longrightarrow> set idx = {..<length a}"
proof -
  assume "is_argsort a idx"
  then have "mset idx = mset [0..<length a]" by (simp add: is_argsort_def)
  then have "set idx = set [0..<length a]" by (rule mset_eq_setD)
  then show ?thesis by (simp add: lessThan_atLeast0)
qed

lemma set_top_queries: "set (top_queries idx q) \<subseteq> set idx"
  by (auto simp: top_queries_def dest: in_set_dropD)

lemma acquisition_iteration_succeeds:
  fixes K :: "('m, 'r) framework" and s :: "'m script_state"
  assumes ge: "pool_subset \<le> length (x_pool s)"
    and ly: "length (y_pool s) = length (x_pool s)"
    and smp0: "\<forall>i\<in>set (sample R (length (x_pool s)) pool_subset). i < length (x_pool s)"
    and prd0: "\<forall>d<dropout_iterations.
               length (predict K (os_environ s) (model s) (dropout_noise R d)
                  (map (\<lambda>i. x_pool s ! i) (sample R (length (x_pool s)) pool_subset)) batch_size)
               = length (sample R (length (x_pool s)) pool_subset)"
    and srt0: "is_argsort
         (bald_U_X (\<lambda>d. predict K (os_environ s) (model s) (dropout_noise R d)
                  (map (\<lambda>i. x_pool s ! i) (sample R (length (x_pool s)) pool_subset)) batch_size)
            (length (sample R (length (x_pool s)) pool_subset)))
         (argsort K (bald_U_X (\<lambda>d. predict K (os_environ s) (model s) (dropout_noise R d)
                  (map (\<lambda>i. x_pool s ! i) (sample R (length (x_pool s)) pool_subset)) batch_size)
            (length (sample R (length (x_pool s)) pool_subset))))"
    and lab: "\<forall>l\<in>set (y_pool s). l \<le> 10"
    and lbl: "\<forall>q. knn K (ref_x (the_oracle s)) (ref_y (the_oracle s))
                   (n_neighbors (the_oracle s)) q < num_classes"
  shows "\<exists>s'. acquisition_iteration K R s = Inr s'"
proof -
  define psd where "psd = sample R (length (x_pool s)) pool_subset"
  define xpd where "xpd = map (\<lambda>i. x_pool s ! i) psd"
  define ux where "ux = bald_U_X (\<lambda>d. predict K (os_environ s) (model s) (dropout_noise R d)
                   xpd batch_size) (length xpd)"
  have smp: "\<forall>i\<in>set psd. i < length (x_pool s)" using smp0 by (simp add: psd_def)
  have prd: "\<forall>d<dropout_iterations.
               length (predict K (os_environ s) (model s) (dropout_noise R d) xpd batch_size)
               = length xpd"
    using prd0 by (simp add: psd_def xpd_def)
  have srt: "is_argsort ux (argsort K ux)"
    using srt0 by (simp add: psd_def xpd_def ux_def)
  define ypd where "ypd = map (\<lambda>i. y_pool s ! i) psd"
  define xpi where "xpi = top_queries (argsort K ux) Queries"
  define px where "px = map (\<lambda>i. xpd ! i) xpi"
  define py0 where "py0 = map (\<lambda>i. ypd ! i) xpi"
  define iu where "iu = get_pool_index_unknown_to_oracle py0"
  define pxu where "pxu = map (\<lambda>i. px ! i) iu"
  have t1: "np_take (x_pool s) psd = Inr xpd"
    unfolding xpd_def using smp by (rule np_take_in_range)
  have t2: "np_take (y_pool s) psd = Inr ypd"
    unfolding ypd_def using smp ly by (intro np_take_in_range) simp
  have lux: "length ux = length xpd"
    unfolding ux_def using prd
    by (intro bald_U_X_length) (simp_all add: dropout_iterations_def)
  have xpi_rng: "\<forall>i\<in>set xpi. i < length xpd"
    using set_top_queries[of "argsort K ux" Queries] is_argsort_set[OF srt] lux
    by (auto simp: xpi_def)
  have t3: "np_take xpd xpi = Inr px"
    unfolding px_def using xpi_rng by (rule np_take_in_range)
  have t4: "np_take ypd xpi = Inr py0"
    unfolding py0_def using xpi_rng by (intro np_take_in_range) (simp add: ypd_def xpd_def)
  have t5: "np_take px iu = Inr pxu"
    unfolding pxu_def
    by (intro np_take_in_range) (simp add: iu_def set_unknown px_def py0_def)
  from oracle_fill[of py0 "knn K" "the_oracle s" px] obtain py where
    t6: "np_put_values py0 iu (assign_nearest_available_label (knn K) (the_oracle s) pxu) = Inr py"
    and lpy: "length py = length py0"
    and vpy: "\<forall>k<length py0. py ! k =
               (if py0 ! k = 10 then knn K (ref_x (the_oracle s)) (ref_y (the_oracle s))
                    (n_neighbors (the_oracle s)) (px ! k)
                else py0 ! k)"
    unfolding iu_def pxu_def by blast
  have py0_le: "\<forall>k<length py0. py0 ! k \<le> 10"
  proof (intro allI impI)
    fix k assume k: "k < length py0"
    then have "xpi ! k < length xpd" using xpi_rng by (simp add: py0_def)
    then have a: "xpi ! k < length psd" by (simp add: xpd_def)
    then have "psd ! (xpi ! k) < length (y_pool s)" using smp ly by simp
    then have "y_pool s ! (psd ! (xpi ! k)) \<in> set (y_pool s)" by simp
    then have "y_pool s ! (psd ! (xpi ! k)) \<le> 10" using lab by blast
    then show "py0 ! k \<le> 10" using k a by (simp add: py0_def ypd_def)
  qed
  have "\<forall>l\<in>set py. l < num_classes"
  proof
    fix l assume "l \<in> set py"
    then obtain k where k: "k < length py0" "py ! k = l"
      using lpy by (auto simp: in_set_conv_nth)
    show "l < num_classes"
    proof (cases "py0 ! k = 10")
      case True
      then show ?thesis using vpy k lbl by auto
    next
      case False
      moreover have "py0 ! k \<le> 10" using py0_le k by simp
      ultimately have "py0 ! k < 10" by simp
      then show ?thesis using vpy k False by (auto simp: num_classes_def)
    qed
  qed
  then have t7: "to_categorical py num_classes = Inr (map (one_hot num_classes) py)"
    by (rule to_categorical_Inr)
  have t8: "np_delete (x_pool s) psd
            = Inr (map (\<lambda>i. x_pool s ! i) (filter (\<lambda>i. i \<notin> set psd) [0..<length (x_pool s)]))"
    using smp by (rule np_delete_in_range)
  have t9: "np_delete (y_pool s) psd
            = Inr (map (\<lambda>i. y_pool s ! i) (filter (\<lambda>i. i \<notin> set psd) [0..<length (y_pool s)]))"
    using smp ly by (intro np_delete_in_range) simp
  have t10: "np_delete xpd xpi
            = Inr (map (\<lambda>i. xpd ! i) (filter (\<lambda>i. i \<notin> set xpi) [0..<length xpd]))"
    using xpi_rng by (rule np_delete_in_range)
  have t11: "np_delete ypd xpi
            = Inr (map (\<lambda>i. ypd ! i) (filter (\<lambda>i. i \<notin> set xpi) [0..<length ypd]))"
    using xpi_rng by (intro np_delete_in_range) (simp add: ypd_def xpd_def)
  have nlt: "\<not> length (x_pool s) < pool_subset" using ge by simp
  show ?thesis
    unfolding acquisition_iteration_def Let_def
    using nlt
    by (simp add: psd_def[symmetric] t1 t2 ux_def[symmetric] xpi_def[symmetric] t3 t4
        iu_def[symmetric] t5 t6 t7 t8 t9 t10 t11)
qed


lemma is_argsort_stable: "is_argsort a (stable_argsort a)"
  by (simp add: is_argsort_def stable_argsort_def)

lemma toy_fields [simp]:
  "x_pool toy_state = toy_x_pool" "y_pool toy_state = toy_y_pool"
  "the_oracle toy_state = toy_oracle" "model toy_state = 5"
  "x_train toy_state = []" "y_train toy_state = []"
  "os_environ toy_state = [''CUDA_VISIBLE_DEVICES'' \<mapsto> ''0'']"
  by (simp_all add: toy_state_def)

lemma toy_framework_fields [simp]:
  "predict toy_framework = (\<lambda>env m r X b. replicate (length X) (replicate num_classes (1 / 10)))"
  "argsort toy_framework = stable_argsort"
  "knn toy_framework = (\<lambda>rx ry k q. 7)"
  "Sequential_compile toy_framework = (\<lambda>env r layers c. 0)"
  "fit toy_framework = (\<lambda>env m r x y b e. m + length x)"
  by (simp_all add: toy_framework_def)

lemma toy_draws_fields [simp]:
  "sample toy_draws = (\<lambda>n k. [0..<k])"
  by (simp_all add: toy_draws_def)

lemma toy_pool_lengths [simp]: "length toy_x_pool = 2000" "length toy_y_pool = 2000"
  by (simp_all add: toy_x_pool_def toy_y_pool_def)

lemma toy_run: "\<exists>s'. acquisition_iteration toy_framework toy_draws toy_state = Inr s'"
proof (rule acquisition_iteration_succeeds)
  show "pool_subset \<le> length (x_pool toy_state)" by (simp add: pool_subset_def)
  show "length (y_pool toy_state) = length (x_pool toy_state)" by simp
  show "\<forall>i\<in>set (sample toy_draws (length (x_pool toy_state)) pool_subset).
          i < length (x_pool toy_state)"
    by (simp add: pool_subset_def)
  show "\<forall>d<dropout_iterations.
       length (predict toy_framework (os_environ toy_state) (model toy_state)
          (dropout_noise toy_draws d)
          (map (\<lambda>i. x_pool toy_state ! i) (sample toy_draws (length (x_pool toy_state)) pool_subset))
          batch_size)
       = length (sample toy_draws (length (x_pool toy_state)) pool_subset)"
    by simp
  show "is_argsort
     (bald_U_X (\<lambda>d. predict toy_framework (os_environ toy_state) (model toy_state)
          (dropout_noise toy_draws d)
          (map (\<lambda>i. x_pool toy_state ! i) (sample toy_draws (length (x_pool toy_state)) pool_subset))
          batch_size)
        (length (sample toy_draws (length (x_pool toy_state)) pool_subset)))
     (argsort toy_framework (bald_U_X (\<lambda>d. predict toy_framework (os_environ toy_state)
          (model toy_state) (dropout_noise toy_draws d)
          (map (\<lambda>i. x_pool toy_state ! i) (sample toy_draws (length (x_pool toy_state)) pool_subset))
          batch_size)
        (length (sample toy_draws (length (x_pool toy_state)) pool_subset))))"
    by (simp only: toy_framework_fields is_argsort_stable)
  show "\<forall>l\<in>set (y_pool toy_state). l \<le> 10" by (auto simp: toy_y_pool_def)
  show "\<forall>q. knn toy_framework (ref_x (the_oracle toy_state)) (ref_y (the_oracle toy_state))
           (n_neighbors (the_oracle toy_state)) q < num_classes"
    by (simp add: num_classes_def)
qed



subsection \<open>What a pass through the loop body does not depend on\<close>

lemma bald_U_X_cong:
  assumes "\<forall>d<dropout_iterations. P d = Q d"
  shows "bald_U_X P n = bald_U_X Q n"
proof -
  have "P 0 = Q 0" "P (Suc 0) = Q (Suc 0)" "P (Suc (Suc 0)) = Q (Suc (Suc 0))"
    using assms by (simp_all add: dropout_iterations_def)
  then show ?thesis by (simp only: bald_U_X_eq)
qed

lemma bind_err_if: "bind_err (if c then Inr v else Inl e) f = (if c then f v else Inl e)"
  by simp

lemma iteration_ignores_deleted:
  "acquisition_iteration K R
     (s\<lparr>delete_Pool_X := a, delete_Pool_Y := b,
        delete_Pool_X_Dropout := c, delete_Pool_Y_Dropout := d\<rparr>)
   = acquisition_iteration K R s"
  by (simp add: acquisition_iteration_def Let_def)

lemma iteration_ignores_weights:
  assumes "\<forall>d<dropout_iterations.
     predict K (os_environ s) m' (dropout_noise R d)
        (map (\<lambda>i. x_pool s ! i) (sample R (length (x_pool s)) pool_subset)) batch_size
     = predict K (os_environ s) (model s) (dropout_noise R d)
        (map (\<lambda>i. x_pool s ! i) (sample R (length (x_pool s)) pool_subset)) batch_size"
  shows "acquisition_iteration K R (s\<lparr>model := m'\<rparr>) = acquisition_iteration K R s"
proof -
  let ?xpd = "map (\<lambda>i. x_pool s ! i) (sample R (length (x_pool s)) pool_subset)"
  have U: "bald_U_X (\<lambda>d. predict K (os_environ s) m' (dropout_noise R d) ?xpd batch_size) n
         = bald_U_X (\<lambda>d. predict K (os_environ s) (model s) (dropout_noise R d) ?xpd batch_size) n"
    for n
    using assms by (intro bald_U_X_cong) simp
  show ?thesis
    unfolding acquisition_iteration_def Let_def
    by (simp add: np_take_def[of "x_pool s"] bind_err_if U)
qed

lemma loop_pool_length:
  assumes "acquisition_loop K R js s = Inr s'"
      and "\<forall>i\<in>set js. \<forall>n. length (sample (R i) n pool_subset) = pool_subset"
  shows "length (x_pool s') = length (x_pool s) + pool_subset * length js
       \<and> length (y_pool s') = length (y_pool s) + pool_subset * length js
       \<and> take (length (x_pool s)) (x_pool s') = x_pool s"
  using assms
proof (induction js arbitrary: s)
  case Nil
  then show ?case by simp
next
  case (Cons i js)
  from Cons.prems(1) obtain s1 where
    s1: "acquisition_iteration K (R i) s = Inr s1" and rest: "acquisition_loop K R js s1 = Inr s'"
    by (auto simp: bind_err_eq_Inr)
  note F = iteration_facts[OF s1]
  have smp: "length (sample (R i) (length (x_pool s)) pool_subset) = pool_subset"
    using Cons.prems(2) by simp
  have l1: "length (x_pool s1) = length (x_pool s) + pool_subset"
    "length (y_pool s1) = length (y_pool s) + pool_subset"
    using F(2,4,5,13,14) smp by simp_all
  have IH: "length (x_pool s') = length (x_pool s1) + pool_subset * length js
       \<and> length (y_pool s') = length (y_pool s1) + pool_subset * length js
       \<and> take (length (x_pool s1)) (x_pool s') = x_pool s1"
    using Cons.IH[OF rest] Cons.prems(2) by simp
  have "take (length (x_pool s)) (x_pool s') = take (length (x_pool s)) (take (length (x_pool s1)) (x_pool s'))"
    using l1 by (simp add: min_def)
  also have "\<dots> = take (length (x_pool s)) (x_pool s1)" using IH by simp
  also have "\<dots> = x_pool s" using F(13) by simp
  finally show ?case using IH l1 by simp
qed



subsection \<open>The command line and the environment\<close>

lemma script_parser_actions:
  "actions script_parser =
     [\<lparr>option_strings = [''-h'', ''--help''], dest = ''help'', kind = HelpAction,
        required = False, default_value = None,
        help_text = ''show this help message and exit''\<rparr>,
      \<lparr>option_strings = [''-g'', ''--gpu''], dest = ''gpu'', kind = StoreAction,
        required = False, default_value = Some ''0'', help_text = ''gpu to use''\<rparr>]"
  by (simp add: script_parser_def ArgumentParser_init_def add_argument_def)

lemma find_action_script [simp]:
  "find_action script_parser ''-g'' =
     Some \<lparr>option_strings = [''-g'', ''--gpu''], dest = ''gpu'', kind = StoreAction,
        required = False, default_value = Some ''0'', help_text = ''gpu to use''\<rparr>"
  "find_action script_parser ''--gpu'' =
     Some \<lparr>option_strings = [''-g'', ''--gpu''], dest = ''gpu'', kind = StoreAction,
        required = False, default_value = Some ''0'', help_text = ''gpu to use''\<rparr>"
  "find_action script_parser ''-h'' =
     Some \<lparr>option_strings = [''-h'', ''--help''], dest = ''help'', kind = HelpAction,
        required = False, default_value = None,
        help_text = ''show this help message and exit''\<rparr>"
  by (simp_all add: find_action_def script_parser_actions)

lemma not_plain [simp]: "\<not> plain_word ''-g''" "\<not> plain_word ''--gpu''" "\<not> plain_word ''-h''"
  by (simp_all add: plain_word_def)

lemma namespace_default: "namespace_of script_parser [] = [''gpu'' \<mapsto> ''0'']"
  by (simp add: namespace_of_def script_parser_actions)

lemma namespace_given: "namespace_of script_parser [(''gpu'', v)] = [''gpu'' \<mapsto> v]"
  by (simp add: namespace_of_def script_parser_actions)

lemma required_none:
  "list_all (\<lambda>a. required a \<longrightarrow> dest a \<in> set (map fst given)) (actions script_parser)"
  by (simp add: script_parser_actions)

lemma parse_empty: "parse_args script_parser [] = Some (Inr [''gpu'' \<mapsto> ''0''])"
  by (simp add: parse_args_def script_parser_actions namespace_default)

lemma parse_short:
  "plain_word v \<Longrightarrow> parse_args script_parser [''-g'', v] = Some (Inr [''gpu'' \<mapsto> v])"
  by (simp add: parse_args_def script_parser_actions namespace_given Let_def)

lemma parse_long:
  "plain_word v \<Longrightarrow> parse_args script_parser [''--gpu'', v] = Some (Inr [''gpu'' \<mapsto> v])"
  by (simp add: parse_args_def script_parser_actions namespace_given Let_def)

lemma parse_word:
  "plain_word w \<Longrightarrow> parse_args script_parser [w] = Some (Inl (SystemExit 2))"
  by (simp add: parse_args_def script_parser_actions Let_def)

lemma parse_help: "parse_args script_parser [''-h''] = Some (Inl (SystemExit 0))"
  by (simp add: parse_args_def)

lemma loop_environ:
  "acquisition_loop K R js s = Inr s' \<Longrightarrow> os_environ s' = os_environ s"
proof (induction js arbitrary: s)
  case Nil
  then show ?case by simp
next
  case (Cons i js)
  from Cons.prems obtain s1 where
    s1: "acquisition_iteration K (R i) s = Inr s1" and rest: "acquisition_loop K R js s1 = Inr s'"
    by (auto simp: bind_err_eq_Inr)
  have "os_environ s' = os_environ s1" by (rule Cons.IH[OF rest])
  also have "\<dots> = os_environ s" by (rule iteration_facts(18)[OF s1])
  finally show ?case .
qed

lemma run_experiment_environ:
  assumes "run_experiment K shuffle R0 R D env = Inr s"
  shows "os_environ s = env"
proof -
  from assms obtain s0 where
    l: "acquisition_loop K R [0..<acquisition_iterations] s0 = Inr s" and e: "os_environ s0 = env"
    unfolding run_experiment_def Let_def bind_err_eq_Inr by auto
  from loop_environ[OF l] e show ?thesis by simp
qed

lemma script_unfold:
  "script K shuffle R0 R D argv env =
     (case parse_args script_parser argv of
        None \<Rightarrow> None
      | Some (Inl e) \<Rightarrow> Some (Inl e)
      | Some (Inr ns) \<Rightarrow>
          (case ns ''gpu'' of
             None \<Rightarrow> Some (Inl AttributeError)
           | Some g \<Rightarrow>
               Some (run_experiment K shuffle R0 R D
                       (env(''CUDA_DEVICE_ORDER'' \<mapsto> ''PCI_BUS_ID'',
                            ''CUDA_VISIBLE_DEVICES'' \<mapsto> g)))))"
  by (simp add: script_def namespace_attr_def Let_def split: option.splits sum.splits)


lemma acquisition_loop_succeeds:
  fixes K :: "('m, 'r) framework"
  assumes smp: "\<forall>i\<in>set js. \<forall>n. pool_subset \<le> n \<longrightarrow> (\<forall>j\<in>set (sample (R i) n pool_subset). j < n)"
      and prd: "\<forall>env m r X b. length (predict K env m r X b) = length X"
      and arg: "\<forall>a. is_argsort a (argsort K a)"
      and lbl: "\<forall>rx ry k q. knn K rx ry k q < num_classes"
      and inv: "pool_subset \<le> length (x_pool s)" "length (y_pool s) = length (x_pool s)"
               "\<forall>l\<in>set (y_pool s). l \<le> 10"
  shows "\<exists>s'. acquisition_loop K R js s = Inr s'"
  using smp inv
proof (induction js arbitrary: s)
  case Nil
  then show ?case by simp
next
  case (Cons i js)
  have "\<exists>s1. acquisition_iteration K (R i) s = Inr s1"
  proof (rule acquisition_iteration_succeeds)
    show "pool_subset \<le> length (x_pool s)" by (rule Cons.prems(2))
    show "length (y_pool s) = length (x_pool s)" by (rule Cons.prems(3))
    show "\<forall>j\<in>set (sample (R i) (length (x_pool s)) pool_subset). j < length (x_pool s)"
      using Cons.prems(1,2) by simp
    show "\<forall>l\<in>set (y_pool s). l \<le> 10" by (rule Cons.prems(4))
  qed (use prd arg lbl in simp_all)
  then obtain s1 where s1: "acquisition_iteration K (R i) s = Inr s1" ..
  note F = iteration_facts[OF s1]
  have i1: "pool_subset \<le> length (x_pool s1)" using F(13) Cons.prems(2) by simp
  have i2: "length (y_pool s1) = length (x_pool s1)"
    using F(4,5,13,14) Cons.prems(3) by simp
  have "set (y_Pool_Dropout s1) \<subseteq> set (y_pool s)"
    using F(3) unfolding F(5) by auto
  then have i3: "\<forall>l\<in>set (y_pool s1). l \<le> 10"
    using Cons.prems(4) unfolding F(14) by auto
  have "\<exists>s'. acquisition_loop K R js s1 = Inr s'"
    using Cons.prems(1) by (intro Cons.IH i1 i2 i3) simp
  then show ?case using s1 by simp
qed

subsection \<open>C1: the acquisition score is the BALD disagreement\<close>




subsection \<open>C2: the queries are the ten highest scores\<close>







subsection \<open>C4: unknown labels are filled in by the oracle\<close>

lemma make_oracle_Inr:
  assumes "make_oracle x y = Inr orc"
  shows "length y = length x"
    and "orc = \<lparr>ref_x = map fst (filter snd (zip x (map (\<lambda>l. l \<noteq> 10) y))),
                ref_y = map fst (filter snd (zip y (map (\<lambda>l. l \<noteq> 10) y))),
                n_neighbors = 3, n_jobs = 2\<rparr>"
  using assms
  by (auto simp: make_oracle_def np_mask_def bind_err_def split: if_splits)

text \<open>
  Claim C4. Let the oracle of the state be the one built from a pool \<open>xp\<close>, \<open>yp\<close> as in
  lines 228 to 230, and let a pass through the loop body run to its end. The oracle's
  reference set is the points of \<open>xp\<close> whose label is not 10, and \<open>n_neighbors = 3\<close>.
  For every queried point: if the label it carries in the pool is the sentinel 10, its
  label \<open>Pooled_Y\<close> is the one the nearest-neighbour rule gives the point over that
  reference set with \<open>k = 3\<close>; otherwise its label is the one from the pool, unchanged.
\<close>

theorem unknown_labels_come_from_oracle:
  assumes run: "acquisition_iteration K R s = Inr s'"
      and orc: "make_oracle xp yp = Inr (the_oracle s)"
  shows "n_neighbors (the_oracle s) = 3
       \<and> zip (ref_x (the_oracle s)) (ref_y (the_oracle s))
           = filter (\<lambda>(x, l). l \<noteq> 10) (zip xp yp)
       \<and> length (Pooled_Y s') = length (x_pool_index s')
       \<and> (\<forall>k<length (x_pool_index s').
             Pooled_Y s' ! k =
               (if y_Pool_Dropout s' ! (x_pool_index s' ! k) = 10
                then knn K (ref_x (the_oracle s)) (ref_y (the_oracle s)) 3 (Pooled_X s' ! k)
                else y_Pool_Dropout s' ! (x_pool_index s' ! k)))"
proof -
  note F = iteration_facts[OF run]
  let ?py0 = "map (\<lambda>i. y_Pool_Dropout s' ! i) (x_pool_index s')"
  have len: "length yp = length xp" using orc by (rule make_oracle_Inr(1))
  from make_oracle_reference[OF len] orc
  have k3: "n_neighbors (the_oracle s) = 3"
    and ref: "zip (ref_x (the_oracle s)) (ref_y (the_oracle s))
              = filter (\<lambda>(x, l). l \<noteq> 10) (zip xp yp)"
    by auto
  from oracle_fill[of ?py0 "knn K" "the_oracle s" "Pooled_X s'"] obtain py where
    put: "np_put_values ?py0 (get_pool_index_unknown_to_oracle ?py0)
            (assign_nearest_available_label (knn K) (the_oracle s)
               (map (\<lambda>i. Pooled_X s' ! i) (get_pool_index_unknown_to_oracle ?py0))) = Inr py"
    and lpy: "length py = length ?py0"
    and vpy: "\<forall>k<length ?py0. py ! k =
               (if ?py0 ! k = 10
                then knn K (ref_x (the_oracle s)) (ref_y (the_oracle s))
                       (n_neighbors (the_oracle s)) (Pooled_X s' ! k)
                else ?py0 ! k)"
    by blast
  have "Inr py = (Inr (Pooled_Y s') :: py_error + nat list)"
    using put F(11) unfolding F(10) by simp
  then have py: "py = Pooled_Y s'" by simp
  have c3: "length (Pooled_Y s') = length (x_pool_index s')" using lpy py by simp
  have c4: "\<forall>k<length (x_pool_index s').
             Pooled_Y s' ! k =
               (if y_Pool_Dropout s' ! (x_pool_index s' ! k) = 10
                then knn K (ref_x (the_oracle s)) (ref_y (the_oracle s)) 3 (Pooled_X s' ! k)
                else y_Pool_Dropout s' ! (x_pool_index s' ! k))"
    using vpy py k3 by simp
  show ?thesis by (rule conjI[OF k3 conjI[OF ref conjI[OF c3 c4]]])
qed

lemma toy_make_oracle: "make_oracle toy_x_pool toy_y_pool = Inr toy_oracle"
  by (simp add: make_oracle_def np_mask_def toy_oracle_def)

text \<open>
  In the small instance every pool label is 10 or 3 and the rule answers 7, so every
  queried point ends up labelled 7 or 3.
\<close>

theorem unknown_labels_come_from_oracle_witness:
  "\<exists>s'. acquisition_iteration toy_framework toy_draws toy_state = Inr s'
     \<and> make_oracle toy_x_pool toy_y_pool = Inr (the_oracle toy_state)
     \<and> n_neighbors (the_oracle toy_state) = 3
     \<and> length (Pooled_Y s') = length (x_pool_index s')
     \<and> list_all (\<lambda>l. l = 7 \<or> l = 3) (Pooled_Y s')"
proof -
  from toy_run obtain s' where
    run: "acquisition_iteration toy_framework toy_draws toy_state = Inr s'" ..
  have orc: "make_oracle toy_x_pool toy_y_pool = Inr (the_oracle toy_state)"
    by (simp add: toy_make_oracle)
  note T = unknown_labels_come_from_oracle[OF run orc]
  note F = iteration_facts[OF run]
  have k3: "n_neighbors (the_oracle toy_state) = 3" using T by blast
  have len: "length (Pooled_Y s') = length (x_pool_index s')" using T by blast
  have pool: "\<forall>l\<in>set (y_Pool_Dropout s'). l = 10 \<or> l = 3"
    using F(3) unfolding F(5) by (auto simp: toy_y_pool_def)
  have "\<forall>l\<in>set (Pooled_Y s'). l = 7 \<or> l = 3"
  proof
    fix l assume "l \<in> set (Pooled_Y s')"
    then obtain k where k: "k < length (x_pool_index s')" "Pooled_Y s' ! k = l"
      using len by (auto simp: in_set_conv_nth)
    have "x_pool_index s' ! k < length (X_Pool_Dropout s')" using F(8) k(1) by simp
    then have "x_pool_index s' ! k < length (y_Pool_Dropout s')" by (simp add: F(4,5))
    then have "y_Pool_Dropout s' ! (x_pool_index s' ! k) \<in> set (y_Pool_Dropout s')" by simp
    with pool have "y_Pool_Dropout s' ! (x_pool_index s' ! k) = 10
        \<or> y_Pool_Dropout s' ! (x_pool_index s' ! k) = 3" by blast
    moreover have "Pooled_Y s' ! k =
               (if y_Pool_Dropout s' ! (x_pool_index s' ! k) = 10
                then knn toy_framework (ref_x (the_oracle toy_state)) (ref_y (the_oracle toy_state))
                       3 (Pooled_X s' ! k)
                else y_Pool_Dropout s' ! (x_pool_index s' ! k))"
      using T k(1) by blast
    ultimately show "l = 7 \<or> l = 3" using k(2) by auto
  qed
  then have all: "list_all (\<lambda>l. l = 7 \<or> l = 3) (Pooled_Y s')" by (simp add: list_all_iff)
  show ?thesis
    by (rule exI[of _ s']) (rule conjI[OF run conjI[OF orc conjI[OF k3 conjI[OF len all]]]])
qed

subsection \<open>C5: the pool only grows\<close>

lemma loop_pool_prefix:
  assumes "acquisition_loop K R js s = Inr s'"
  shows "take (length (x_pool s)) (x_pool s') = x_pool s"
  using assms
proof (induction js arbitrary: s)
  case Nil
  then show ?case by simp
next
  case (Cons i js)
  from Cons.prems(1) obtain s1 where
    s1: "acquisition_iteration K (R i) s = Inr s1" and rest: "acquisition_loop K R js s1 = Inr s'"
    by (auto simp: bind_err_eq_Inr)
  note F = iteration_facts[OF s1]
  have IH: "take (length (x_pool s1)) (x_pool s') = x_pool s1" by (rule Cons.IH[OF rest])
  have "take (length (x_pool s)) (x_pool s')
        = take (length (x_pool s)) (take (length (x_pool s1)) (x_pool s'))"
    using F(13) by (simp add: min_def)
  also have "\<dots> = take (length (x_pool s)) (x_pool s1)" using IH by simp
  also have "\<dots> = x_pool s" using F(13) by simp
  finally show ?case .
qed

text \<open>
  Claim C5. In a pass through the loop body that runs to its end, where \<open>random.sample\<close>
  returned \<open>pool_subset\<close> indices: the new pool is the old pool followed by the sampled
  subset, so \<open>x_pool\<close> and \<open>y_pool\<close> are longer by exactly 2000; the subset consists of
  pool points (which the pool now holds twice); the queried points are still in the pool;
  the values left in the four \<open>delete_...\<close> variables have no influence on any later
  pass; and however the loop continues, every point of the pool, the queried ones
  included, is in every later pool.
\<close>

theorem pool_only_grows:
  assumes run: "acquisition_iteration K R s = Inr s'"
      and smp: "length (sample R (length (x_pool s)) pool_subset) = pool_subset"
  shows "x_pool s' = x_pool s @ X_Pool_Dropout s'
       \<and> y_pool s' = y_pool s @ y_Pool_Dropout s'
       \<and> length (x_pool s') = length (x_pool s) + 2000
       \<and> length (y_pool s') = length (y_pool s) + 2000
       \<and> set (X_Pool_Dropout s') \<subseteq> set (x_pool s)
       \<and> set (Pooled_X s') \<subseteq> set (x_pool s')
       \<and> (\<forall>K' R' a b c d.
             acquisition_iteration K' R'
               (s'\<lparr>delete_Pool_X := a, delete_Pool_Y := b,
                   delete_Pool_X_Dropout := c, delete_Pool_Y_Dropout := d\<rparr>)
             = acquisition_iteration K' R' s')
       \<and> (\<forall>Rs js s''. acquisition_loop K Rs js s' = Inr s'' \<longrightarrow>
             set (x_pool s') \<subseteq> set (x_pool s'') \<and> set (Pooled_X s') \<subseteq> set (x_pool s''))"
proof -
  note F = iteration_facts[OF run]
  have lx: "length (X_Pool_Dropout s') = 2000" "length (y_Pool_Dropout s') = 2000"
    using F(2,4,5) smp by (simp_all add: pool_subset_def)
  have c3: "length (x_pool s') = length (x_pool s) + 2000" using F(13) lx by simp
  have c4: "length (y_pool s') = length (y_pool s) + 2000" using F(14) lx by simp
  have c5: "set (X_Pool_Dropout s') \<subseteq> set (x_pool s)"
    using F(3) unfolding F(4) by auto
  have "set (Pooled_X s') \<subseteq> set (X_Pool_Dropout s')"
    using F(8) unfolding F(9) by auto
  then have c6: "set (Pooled_X s') \<subseteq> set (x_pool s')" unfolding F(13) by auto
  have c7: "\<forall>K' R' a b c d.
             acquisition_iteration K' R'
               (s'\<lparr>delete_Pool_X := a, delete_Pool_Y := b,
                   delete_Pool_X_Dropout := c, delete_Pool_Y_Dropout := d\<rparr>)
             = acquisition_iteration K' R' s'"
    by (simp only: iteration_ignores_deleted) simp
  have c8: "\<forall>Rs js s''. acquisition_loop K Rs js s' = Inr s'' \<longrightarrow>
             set (x_pool s') \<subseteq> set (x_pool s'') \<and> set (Pooled_X s') \<subseteq> set (x_pool s'')"
  proof (intro allI impI)
    fix Rs js s'' assume "acquisition_loop K Rs js s' = Inr s''"
    then have "take (length (x_pool s')) (x_pool s'') = x_pool s'" by (rule loop_pool_prefix)
    then have "set (x_pool s') \<subseteq> set (x_pool s'')" by (metis set_take_subset)
    with c6 show "set (x_pool s') \<subseteq> set (x_pool s'') \<and> set (Pooled_X s') \<subseteq> set (x_pool s'')"
      by blast
  qed
  show ?thesis
    by (rule conjI[OF F(13) conjI[OF F(14) conjI[OF c3 conjI[OF c4 conjI[OF c5 conjI[OF c6
          conjI[OF c7 c8]]]]]]])
qed

text \<open>The pool of the small instance grows from 2000 to 4000 points.\<close>

theorem pool_only_grows_witness:
  "\<exists>s'. acquisition_iteration toy_framework toy_draws toy_state = Inr s'
     \<and> length (sample toy_draws (length (x_pool toy_state)) pool_subset) = pool_subset
     \<and> length (x_pool toy_state) = 2000
     \<and> length (x_pool s') = 4000 \<and> length (y_pool s') = 4000
     \<and> set (Pooled_X s') \<subseteq> set (x_pool s')"
proof -
  from toy_run obtain s' where
    run: "acquisition_iteration toy_framework toy_draws toy_state = Inr s'" ..
  have smp: "length (sample toy_draws (length (x_pool toy_state)) pool_subset) = pool_subset"
    by simp
  note T = pool_only_grows[OF run smp]
  have l0: "length (x_pool toy_state) = 2000" by simp
  have l1: "length (x_pool s') = 4000"
    using T[THEN conjunct2, THEN conjunct2, THEN conjunct1] by simp
  have l2: "length (y_pool s') = 4000"
    using T[THEN conjunct2, THEN conjunct2, THEN conjunct2, THEN conjunct1] by simp
  have q: "set (Pooled_X s') \<subseteq> set (x_pool s')"
    by (rule T[THEN conjunct2, THEN conjunct2, THEN conjunct2, THEN conjunct2, THEN conjunct2,
          THEN conjunct1])
  show ?thesis
    by (rule exI[of _ s']) (rule conjI[OF run conjI[OF smp conjI[OF l0 conjI[OF l1 conjI[OF l2 q]]]]])
qed


subsection \<open>C6: a fresh model in every pass\<close>

text \<open>
  Claim C6. In a pass through the loop body that runs to its end, the model left in
  \<open>model\<close> is the result of \<open>fit\<close> on the enlarged training set, started from a model
  newly built and compiled from this pass's initialisation randomness. Its layers and
  compile arguments are those of the model built before the loop (two convolutions, max
  pooling, dropout, a dense layer, dropout, softmax). The loop makes 1000 such passes. The
  previous model enters a pass only through its predictions: with any other previous
  model that predicts the same on the sampled subset, the pass ends in the same state.
\<close>

theorem fresh_model_every_iteration:
  assumes run: "acquisition_iteration K R s = Inr s'"
  shows "model s' = fit K (os_environ s)
            (Sequential_compile K (os_environ s) (init_noise R) iteration_layers iteration_compile)
            (fit_noise R) (x_train s') (y_train s') batch_size epochs
       \<and> iteration_layers = initial_layers \<and> iteration_compile = initial_compile
       \<and> iteration_layers =
            [Conv2D 32 (3, 3) ''relu'', Conv2D 64 (3, 3) ''relu'', MaxPooling2D (2, 2),
             Lambda_dropout 0.25, Flatten, Dense 128 ''relu'', Lambda_dropout 0.5,
             Dense 10 ''softmax'']
       \<and> length [0..<acquisition_iterations] = 1000
       \<and> (\<forall>m'. (\<forall>d<dropout_iterations.
                   predict K (os_environ s) m' (dropout_noise R d)
                     (map (\<lambda>i. x_pool s ! i) (sample R (length (x_pool s)) pool_subset)) batch_size
                   = predict K (os_environ s) (model s) (dropout_noise R d)
                     (map (\<lambda>i. x_pool s ! i) (sample R (length (x_pool s)) pool_subset)) batch_size)
               \<longrightarrow> acquisition_iteration K R (s\<lparr>model := m'\<rparr>) = Inr s')"
proof -
  note F = iteration_facts[OF run]
  have c2: "iteration_layers = initial_layers"
    by (simp add: iteration_layers_def initial_layers_def)
  have c3: "iteration_compile = initial_compile"
    by (simp add: iteration_compile_def initial_compile_def)
  have c4: "iteration_layers =
            [Conv2D 32 (3, 3) ''relu'', Conv2D 64 (3, 3) ''relu'', MaxPooling2D (2, 2),
             Lambda_dropout 0.25, Flatten, Dense 128 ''relu'', Lambda_dropout 0.5,
             Dense 10 ''softmax'']"
    by (simp add: iteration_layers_def num_classes_def)
  have c5: "length [0..<acquisition_iterations] = 1000"
    by (simp add: acquisition_iterations_def)
  have c6: "\<forall>m'. (\<forall>d<dropout_iterations.
                   predict K (os_environ s) m' (dropout_noise R d)
                     (map (\<lambda>i. x_pool s ! i) (sample R (length (x_pool s)) pool_subset)) batch_size
                   = predict K (os_environ s) (model s) (dropout_noise R d)
                     (map (\<lambda>i. x_pool s ! i) (sample R (length (x_pool s)) pool_subset)) batch_size)
               \<longrightarrow> acquisition_iteration K R (s\<lparr>model := m'\<rparr>) = Inr s'"
  proof (intro allI impI)
    fix m'
    assume "\<forall>d<dropout_iterations.
                   predict K (os_environ s) m' (dropout_noise R d)
                     (map (\<lambda>i. x_pool s ! i) (sample R (length (x_pool s)) pool_subset)) batch_size
                   = predict K (os_environ s) (model s) (dropout_noise R d)
                     (map (\<lambda>i. x_pool s ! i) (sample R (length (x_pool s)) pool_subset)) batch_size"
    then have "acquisition_iteration K R (s\<lparr>model := m'\<rparr>) = acquisition_iteration K R s"
      by (rule iteration_ignores_weights)
    with run show "acquisition_iteration K R (s\<lparr>model := m'\<rparr>) = Inr s'" by simp
  qed
  show ?thesis
    by (rule conjI[OF F(17) conjI[OF c2 conjI[OF c3 conjI[OF c4 conjI[OF c5 c6]]]]])
qed

text \<open>
  In the small instance the weights count the training examples seen since
  initialisation: after the pass they are the size of the training set, whether the
  previous weights were 5 or 99.
\<close>

theorem fresh_model_every_iteration_witness:
  "\<exists>s'. acquisition_iteration toy_framework toy_draws toy_state = Inr s'
     \<and> model toy_state = 5
     \<and> model s' = 0 + length (x_train s')
     \<and> acquisition_iteration toy_framework toy_draws (toy_state\<lparr>model := 99\<rparr>) = Inr s'"
proof -
  from toy_run obtain s' where
    run: "acquisition_iteration toy_framework toy_draws toy_state = Inr s'" ..
  note T = fresh_model_every_iteration[OF run]
  have m0: "model toy_state = 5" by simp
  have m: "model s' = 0 + length (x_train s')" using T[THEN conjunct1] by simp
  have "\<forall>d<dropout_iterations.
      predict toy_framework (os_environ toy_state) 99 (dropout_noise toy_draws d)
         (map (\<lambda>i. x_pool toy_state ! i) (sample toy_draws (length (x_pool toy_state)) pool_subset))
         batch_size
      = predict toy_framework (os_environ toy_state) (model toy_state) (dropout_noise toy_draws d)
         (map (\<lambda>i. x_pool toy_state ! i) (sample toy_draws (length (x_pool toy_state)) pool_subset))
         batch_size"
    by simp
  with T have r: "acquisition_iteration toy_framework toy_draws (toy_state\<lparr>model := 99\<rparr>) = Inr s'"
    by blast
  show ?thesis
    by (rule exI[of _ s']) (rule conjI[OF run conjI[OF m0 conjI[OF m r]]])
qed

subsection \<open>C7: the stacked forward pass\<close>

lemma bind_err_cases:
  "bind_err m f = (case m of Inl e \<Rightarrow> Inl e | Inr v \<Rightarrow> f v)"
  by (simp add: bind_err_def)

text \<open>
  Claim C7. For a stacked model whose \<open>features\<close> attribute is a model with an
  \<open>encoder\<close>: \<open>StackedDeepGenerativeModel.forward(x, y)\<close> raises what that encoder
  raises on \<open>x\<close>, and otherwise returns exactly what \<open>DeepGenerativeModel.forward\<close>
  returns on the same object for the latent sample the encoder drew from \<open>x\<close> and the
  same \<open>y\<close>. With \<open>y = None\<close> that is the classifier's output on the latent sample
  alone.
\<close>

theorem stacked_forward_on_latent_sample:
  assumes f: "getattr_module self ''features'' = Inr features"
      and e: "getattr_module features ''encoder'' = Inr features_encoder"
  shows "StackedDeepGenerativeModel_forward T self noise1 noise2 x y =
           (case Encoder_call T features_encoder noise1 x of
              Inl err \<Rightarrow> Inl err
            | Inr xs \<Rightarrow> DeepGenerativeModel_forward T self noise2 (fst xs) y)
       \<and> (\<forall>x_sample z_mu z_log_var classifier.
             Encoder_call T features_encoder noise1 x = Inr (x_sample, z_mu, z_log_var)
             \<and> getattr_module self ''classifier'' = Inr classifier
           \<longrightarrow> StackedDeepGenerativeModel_forward T self noise1 noise2 x None =
                 (case Classifier_forward T classifier x_sample of
                    Inl err \<Rightarrow> Inl err
                  | Inr logits \<Rightarrow> Inr (Logits logits)))"
proof -
  have a: "StackedDeepGenerativeModel_forward T self noise1 noise2 x y =
           (case Encoder_call T features_encoder noise1 x of
              Inl err \<Rightarrow> Inl err
            | Inr xs \<Rightarrow> DeepGenerativeModel_forward T self noise2 (fst xs) y)" for y
    by (simp add: StackedDeepGenerativeModel_forward_def f e Let_def bind_err_cases)
  have b: "\<forall>x_sample z_mu z_log_var classifier.
             Encoder_call T features_encoder noise1 x = Inr (x_sample, z_mu, z_log_var)
             \<and> getattr_module self ''classifier'' = Inr classifier
           \<longrightarrow> StackedDeepGenerativeModel_forward T self noise1 noise2 x None =
                 (case Classifier_forward T classifier x_sample of
                    Inl err \<Rightarrow> Inl err
                  | Inr logits \<Rightarrow> Inr (Logits logits))"
    by (simp add: a DeepGenerativeModel_forward_def bind_err_cases)
  show ?thesis by (rule conjI[OF a b])
qed


lemma toy_torch_fields [simp]:
  "Linear_init toy_torch = toy_linear"
  "Linear_call toy_torch = (\<lambda>m x. Inr x)"
  "Encoder_call toy_torch = (\<lambda>m n x. Inr (map (map (\<lambda>v. v + n)) x, x, x))"
  "Decoder_call toy_torch = (\<lambda>m x. Inr x)"
  "DeepGenerativeModel_init toy_torch = (\<lambda>n dims ratio. toy_dgm)"
  by (simp_all add: toy_torch_def)

text \<open>
  In the small instance the features encoder, sampling with 1, turns the input row
  \<open>(0, 0)\<close> into \<open>(1, 1)\<close>.
\<close>

theorem stacked_forward_on_latent_sample_witness:
  "getattr_module (setattr_module toy_dgm ''features'' toy_features) ''features'' = Inr toy_features
   \<and> getattr_module toy_features ''encoder'' = Inr toy_encoder
   \<and> StackedDeepGenerativeModel_forward toy_torch
        (setattr_module toy_dgm ''features'' toy_features) 1 2 [[0, 0]] (Some [[1]])
      = DeepGenerativeModel_forward toy_torch
        (setattr_module toy_dgm ''features'' toy_features) 2 [[1, 1]] (Some [[1]])"
proof -
  let ?self = "setattr_module toy_dgm ''features'' toy_features"
  have f: "getattr_module ?self ''features'' = Inr toy_features"
    by (simp add: getattr_module_def setattr_module_def toy_dgm_def)
  have e: "getattr_module toy_features ''encoder'' = Inr toy_encoder"
    by (simp add: getattr_module_def toy_features_def)
  note T = stacked_forward_on_latent_sample[OF f e, of toy_torch 1 2 "[[0, 0]]" "Some [[1]]",
      THEN conjunct1]
  have r: "StackedDeepGenerativeModel_forward toy_torch ?self 1 2 [[0, 0]] (Some [[1]])
      = DeepGenerativeModel_forward toy_torch ?self 2 [[1, 1]] (Some [[1]])"
    unfolding T by simp
  show ?thesis by (rule conjI[OF f conjI[OF e r]])
qed


subsection \<open>C8: the features model is frozen by the constructor\<close>

lemma map_of_assoc_update:
  "map_of (assoc_update k v ps) name = (if name = k then Some v else map_of ps name)"
  by (induction ps) auto

lemma set_assoc_update: "set (assoc_update k v ps) \<subseteq> insert (k, v) (set ps)"
  by (induction ps) auto

lemma getattr_setattr:
  "getattr_module (setattr_module m k c) name
   = (if name = k then Inr c else getattr_module m name)"
  by (simp add: getattr_module_def setattr_module_def map_of_assoc_update)

lemma parameters_set: "set (parameters m) =
   snd ` set (own_parameters m) \<union> (\<Union>nm\<in>set (submodules m). set (parameters (snd nm)))"
  by (cases m) auto

lemma frozen_after: "list_all (\<lambda>p. \<not> requires_grad p) (parameters (set_requires_grad False m))"
proof (induction m)
  case (Module c t ia ps subs)
  have "\<forall>nm\<in>set subs. list_all (\<lambda>p. \<not> requires_grad p) (parameters (set_requires_grad False (snd nm)))"
    using Module.IH by (auto simp: snds.simps)
  then show ?case by (auto simp: list_all_iff)
qed

lemma data_after_freeze:
  "map param_data (parameters (set_requires_grad flag m)) = map param_data (parameters m)"
proof (induction m)
  case (Module c t ia ps subs)
  have "\<forall>nm\<in>set subs. map param_data (parameters (set_requires_grad flag (snd nm)))
                        = map param_data (parameters (snd nm))"
    using Module.IH by (auto simp: snds.simps)
  then have "map (\<lambda>nm. map param_data (parameters (set_requires_grad flag (snd nm)))) subs
           = map (\<lambda>nm. map param_data (parameters (snd nm))) subs"
    by simp
  then have "concat (map (\<lambda>nm. map param_data (parameters (set_requires_grad flag (snd nm)))) subs)
           = concat (map (\<lambda>nm. map param_data (parameters (snd nm))) subs)"
    by (rule arg_cong)
  then show ?case by (simp add: map_concat comp_def)
qed

lemma parameters_train: "parameters (train mode m) = parameters m"
proof (induction m)
  case (Module c t ia ps subs)
  have "\<forall>nm\<in>set subs. parameters (train mode (snd nm)) = parameters (snd nm)"
    using Module.IH by (auto simp: snds.simps)
  then have "map (\<lambda>nm. parameters (train mode (snd nm))) subs = map (\<lambda>nm. parameters (snd nm)) subs"
    by simp
  then have "concat (map (\<lambda>nm. parameters (train mode (snd nm))) subs)
           = concat (map (\<lambda>nm. parameters (snd nm)) subs)"
    by (rule arg_cong)
  then show ?case by (simp add: comp_def)
qed

lemma all_eval_train: "all_eval (train False m)"
proof (induction m)
  case (Module c t ia ps subs)
  have "\<forall>nm\<in>set subs. all_eval (train False (snd nm))"
    using Module.IH by (auto simp: snds.simps)
  then show ?case by (auto simp: list_all_iff)
qed

lemma all_eval_set_requires_grad: "all_eval (set_requires_grad flag m) = all_eval m"
proof (induction m)
  case (Module c t ia ps subs)
  have "\<forall>nm\<in>set subs. all_eval (set_requires_grad flag (snd nm)) = all_eval (snd nm)"
    using Module.IH by (auto simp: snds.simps)
  then show ?case by (auto simp: list_all_iff)
qed

lemma optimizer_step_frozen:
  "list_all (\<lambda>p. \<not> requires_grad p) (parameters m) \<Longrightarrow> optimizer_step upd m = m"
proof (induction m)
  case (Module c t ia ps subs)
  have own: "\<forall>np\<in>set ps. \<not> requires_grad (snd np)"
    using Module.prems by (auto simp: list_all_iff)
  have sub: "\<forall>nm\<in>set subs. optimizer_step upd (snd nm) = snd nm"
  proof
    fix nm assume nm: "nm \<in> set subs"
    then have "list_all (\<lambda>p. \<not> requires_grad p) (parameters (snd nm))"
      using Module.prems by (auto simp: list_all_iff)
    with nm show "optimizer_step upd (snd nm) = snd nm"
      using Module.IH[of nm "snd nm"] by (cases nm) (auto simp: snds.simps)
  qed
  have a: "map (map_prod id (\<lambda>p. if requires_grad p then Param (upd (param_data p)) True else p)) ps = ps"
    using own by (intro map_idI) (auto simp: map_prod_def split: prod.splits)
  have b: "map (map_prod id (optimizer_step upd)) subs = subs"
    using sub by (intro map_idI) (auto simp: map_prod_def split: prod.splits)
  show ?case by (simp add: a b)
qed


lemma map_of_map_prod:
  "map_of (map (map_prod id g) ps) name = map_option g (map_of ps name)"
  by (induction ps) auto

lemma getattr_optimizer_step:
  "getattr_module (optimizer_step upd m) name
   = (case getattr_module m name of Inl e \<Rightarrow> Inl e | Inr c \<Rightarrow> Inr (optimizer_step upd c))"
  by (cases m) (simp add: getattr_module_def map_of_map_prod split: option.splits)

lemma frozen_submodule_survives:
  assumes "getattr_module m name = Inr f" "list_all (\<lambda>p. \<not> requires_grad p) (parameters f)"
  shows "getattr_module (fold optimizer_step upds m) name = Inr f"
  using assms(1)
proof (induction upds arbitrary: m)
  case Nil
  then show ?case by simp
next
  case (Cons u upds)
  have "getattr_module (optimizer_step u m) name = Inr (optimizer_step u f)"
    using Cons.prems by (simp add: getattr_optimizer_step)
  then have "getattr_module (optimizer_step u m) name = Inr f"
    using assms(2) by (simp add: optimizer_step_frozen)
  then show ?case using Cons.IH by simp
qed

lemma getattr_member: "getattr_module m name = Inr c \<Longrightarrow> (name, c) \<in> set (submodules m)"
  by (auto simp: getattr_module_def split: option.splits dest: map_of_SomeD)

lemma parameters_submodule:
  "(name, c) \<in> set (submodules m) \<Longrightarrow> set (parameters c) \<subseteq> set (parameters m)"
  by (cases m) force

lemma parameters_setattr:
  "set (parameters (setattr_module m k c)) \<subseteq> set (parameters m) \<union> set (parameters c)"
proof
  fix p assume "p \<in> set (parameters (setattr_module m k c))"
  then consider "p \<in> snd ` set (own_parameters m)"
    | nm where "nm \<in> set (assoc_update k c (submodules m))" "p \<in> set (parameters (snd nm))"
    by (auto simp: parameters_set[of "setattr_module m k c"] setattr_module_def)
  then show "p \<in> set (parameters m) \<union> set (parameters c)"
  proof cases
    case 1
    then show ?thesis by (auto simp: parameters_set[of m])
  next
    case 2
    then have "nm = (k, c) \<or> nm \<in> set (submodules m)"
      using set_assoc_update[of k c "submodules m"] by auto
    then show ?thesis using 2(2) by (auto simp: parameters_set[of m])
  qed
qed

lemma stacked_init_Inr:
  assumes "StackedDeepGenerativeModel_init T rng dims ratio features = Inr self"
  obtains zd dec0 rec0 inf where
    "getattr_int features ''z_dim'' = Inr zd"
    "getattr_module (DeepGenerativeModel_init T rng
        (zd, fst (snd dims), fst (snd (snd dims)), snd (snd (snd dims))) ratio) ''decoder''
      = Inr dec0"
    "getattr_module dec0 ''reconstruction'' = Inr rec0"
    "getattr_int rec0 ''in_features'' = Inr inf"
    "self = setattr_module
       (setattr_module
          (DeepGenerativeModel_init T rng
             (zd, fst (snd dims), fst (snd (snd dims)), snd (snd (snd dims))) ratio)
          ''decoder''
          (setattr_module dec0 ''reconstruction'' (Linear_init T rng inf (fst dims))))
       ''features'' (set_requires_grad False (train False features))"
  using assms
  unfolding StackedDeepGenerativeModel_init_def Let_def
  by (auto simp: bind_err_eq_Inr)


text \<open>
  Claim C8. When \<open>StackedDeepGenerativeModel.__init__\<close> returns, the object's \<open>features\<close>
  attribute is the given features model switched to evaluation mode (it and all its
  descendants) with \<open>requires_grad = False\<close> on every parameter and every parameter
  value as before. Whatever optimizer steps are then applied to the stacked model, the
  \<open>features\<close> attribute stays that same module, parameter values included. Every other
  attribute but \<open>decoder\<close> is as \<open>DeepGenerativeModel.__init__\<close> left it, and if the
  parameters that constructor and \<open>nn.Linear\<close> create require gradients, then so do all
  parameters of every attribute other than \<open>features\<close>.
\<close>

theorem features_frozen_by_init:
  assumes init: "StackedDeepGenerativeModel_init T rng dims ratio features = Inr self"
  shows "\<exists>f zd base.
           getattr_module self ''features'' = Inr f
         \<and> f = set_requires_grad False (train False features)
         \<and> list_all (\<lambda>p. \<not> requires_grad p) (parameters f)
         \<and> all_eval f
         \<and> map param_data (parameters f) = map param_data (parameters features)
         \<and> (\<forall>upds. getattr_module (fold optimizer_step upds self) ''features'' = Inr f)
         \<and> getattr_int features ''z_dim'' = Inr zd
         \<and> base = DeepGenerativeModel_init T rng
                    (zd, fst (snd dims), fst (snd (snd dims)), snd (snd (snd dims))) ratio
         \<and> (\<forall>name. name \<noteq> ''features'' \<and> name \<noteq> ''decoder''
                \<longrightarrow> getattr_module self name = getattr_module base name)
         \<and> own_parameters self = own_parameters base
         \<and> ((\<forall>p\<in>set (parameters base). requires_grad p)
              \<and> (\<forall>i o'. \<forall>p\<in>set (parameters (Linear_init T rng i o')). requires_grad p)
             \<longrightarrow> (\<forall>name m. getattr_module self name = Inr m \<and> name \<noteq> ''features''
                    \<longrightarrow> (\<forall>p\<in>set (parameters m). requires_grad p)))"
proof -
  from stacked_init_Inr[OF init] obtain zd dec0 rec0 inf where
    zd: "getattr_int features ''z_dim'' = Inr zd"
    and dec0: "getattr_module (DeepGenerativeModel_init T rng
        (zd, fst (snd dims), fst (snd (snd dims)), snd (snd (snd dims))) ratio) ''decoder''
      = Inr dec0"
    and self: "self = setattr_module
       (setattr_module
          (DeepGenerativeModel_init T rng
             (zd, fst (snd dims), fst (snd (snd dims)), snd (snd (snd dims))) ratio)
          ''decoder''
          (setattr_module dec0 ''reconstruction'' (Linear_init T rng inf (fst dims))))
       ''features'' (set_requires_grad False (train False features))"
    by blast
  define base where "base = DeepGenerativeModel_init T rng
        (zd, fst (snd dims), fst (snd (snd dims)), snd (snd (snd dims))) ratio"
  define dec' where "dec' = setattr_module dec0 ''reconstruction'' (Linear_init T rng inf (fst dims))"
  define f where "f = set_requires_grad False (train False features)"
  have self': "self = setattr_module (setattr_module base ''decoder'' dec') ''features'' f"
    using self by (simp add: base_def dec'_def f_def)
  have c1: "getattr_module self ''features'' = Inr f" by (simp add: self' getattr_setattr)
  have c3: "list_all (\<lambda>p. \<not> requires_grad p) (parameters f)"
    unfolding f_def by (rule frozen_after)
  have c4: "all_eval f" by (simp add: f_def all_eval_set_requires_grad all_eval_train)
  have c5: "map param_data (parameters f) = map param_data (parameters features)"
    by (simp add: f_def data_after_freeze parameters_train)
  have c6: "\<forall>upds. getattr_module (fold optimizer_step upds self) ''features'' = Inr f"
    using frozen_submodule_survives[OF c1 c3] by blast
  have c9: "\<forall>name. name \<noteq> ''features'' \<and> name \<noteq> ''decoder''
                \<longrightarrow> getattr_module self name = getattr_module base name"
    by (simp add: self' getattr_setattr)
  have c10: "own_parameters self = own_parameters base"
    by (simp add: self' setattr_module_def)
  have c11: "(\<forall>p\<in>set (parameters base). requires_grad p)
              \<and> (\<forall>i o'. \<forall>p\<in>set (parameters (Linear_init T rng i o')). requires_grad p)
             \<longrightarrow> (\<forall>name m. getattr_module self name = Inr m \<and> name \<noteq> ''features''
                    \<longrightarrow> (\<forall>p\<in>set (parameters m). requires_grad p))"
  proof (intro impI allI ballI, elim conjE)
    fix name m p
    assume B: "\<forall>p\<in>set (parameters base). requires_grad p"
      and L: "\<forall>i o'. \<forall>p\<in>set (parameters (Linear_init T rng i o')). requires_grad p"
      and g: "getattr_module self name = Inr m" and n: "name \<noteq> ''features''"
      and p: "p \<in> set (parameters m)"
    have d0: "set (parameters dec0) \<subseteq> set (parameters base)"
      using dec0 unfolding base_def[symmetric]
      by (intro parameters_submodule[of "''decoder''"] getattr_member)
    show "requires_grad p"
    proof (cases "name = ''decoder''")
      case True
      then have "m = dec'" using g n by (simp add: self' getattr_setattr)
      then have "p \<in> set (parameters dec0) \<union> set (parameters (Linear_init T rng inf (fst dims)))"
        using p parameters_setattr[of dec0 "''reconstruction''" "Linear_init T rng inf (fst dims)"]
        by (auto simp: dec'_def)
      then show ?thesis using d0 B L by blast
    next
      case False
      then have "getattr_module base name = Inr m" using g n by (simp add: self' getattr_setattr)
      then have "set (parameters m) \<subseteq> set (parameters base)"
        by (intro parameters_submodule[of name] getattr_member)
      then show ?thesis using p B by blast
    qed
  qed
  show ?thesis
    by (rule exI[of _ f], rule exI[of _ zd], rule exI[of _ base])
       (rule conjI[OF c1 conjI[OF f_def conjI[OF c3 conjI[OF c4 conjI[OF c5 conjI[OF c6
          conjI[OF zd conjI[OF base_def conjI[OF c9 conjI[OF c10 c11]]]]]]]]]])
qed


lemma toy_init:
  "StackedDeepGenerativeModel_init toy_torch 1 (5, 2, 2, [3]) 1 toy_features
   = Inr (setattr_module
            (setattr_module toy_dgm ''decoder''
               (setattr_module toy_decoder ''reconstruction'' (toy_linear 1 3 5)))
            ''features'' (set_requires_grad False (train False toy_features)))"
proof -
  have a: "getattr_int toy_features ''z_dim'' = Inr 2"
    by (simp add: getattr_int_def toy_features_def)
  have b: "getattr_module toy_dgm ''decoder'' = Inr toy_decoder"
    by (simp add: getattr_module_def toy_dgm_def)
  have c: "getattr_module toy_decoder ''reconstruction'' = Inr (toy_linear 1 3 4)"
    by (simp add: getattr_module_def toy_decoder_def)
  have d: "getattr_int (toy_linear 1 3 4) ''in_features'' = Inr 3"
    by (simp add: getattr_int_def toy_linear_def)
  show ?thesis
    by (simp add: StackedDeepGenerativeModel_init_def Let_def a b c d)
qed

text \<open>The constructor runs on the small instance; one optimizer step adds 1 everywhere it may.\<close>

theorem features_frozen_by_init_witness:
  "\<exists>self f. StackedDeepGenerativeModel_init toy_torch 1 (5, 2, 2, [3]) 1 toy_features = Inr self
     \<and> getattr_module self ''features'' = Inr f
     \<and> list_all (\<lambda>p. \<not> requires_grad p) (parameters f)
     \<and> all_eval f
     \<and> map param_data (parameters f) = map param_data (parameters toy_features)
     \<and> getattr_module (fold optimizer_step [\<lambda>t. map (map (\<lambda>v. v + 1)) t] self) ''features''
         = Inr f"
proof -
  let ?S = "setattr_module
            (setattr_module toy_dgm ''decoder''
               (setattr_module toy_decoder ''reconstruction'' (toy_linear 1 3 5)))
            ''features'' (set_requires_grad False (train False toy_features))"
  have run: "StackedDeepGenerativeModel_init toy_torch 1 (5, 2, 2, [3]) 1 toy_features = Inr ?S"
    by (rule toy_init)
  from features_frozen_by_init[OF run] obtain f where
    c1: "getattr_module ?S ''features'' = Inr f"
    and c3: "list_all (\<lambda>p. \<not> requires_grad p) (parameters f)"
    and c4: "all_eval f"
    and c5: "map param_data (parameters f) = map param_data (parameters toy_features)"
    and c6: "\<forall>upds. getattr_module (fold optimizer_step upds ?S) ''features'' = Inr f"
    by blast
  have c6': "getattr_module (fold optimizer_step [\<lambda>t. map (map (\<lambda>v. v + 1)) t] ?S) ''features''
         = Inr f"
    using c6 by blast
  show ?thesis
    by (rule exI[of _ ?S], rule exI[of _ f])
       (rule conjI[OF run conjI[OF c1 conjI[OF c3 conjI[OF c4 conjI[OF c5 c6']]]]])
qed


end
